theory Spec2Isabelle
  imports Complex_Main
begin

section \<open>JavaScript strings and objects\<close>

text \<open>
  A JavaScript string is a \<^typ>\<open>string\<close>; one \<^typ>\<open>char\<close> stands for one UTF-16 code
  unit below 256 (the Latin-1 range). \<open>String.prototype.trim\<close> strips the white space and
  line terminators of ECMAScript from both ends; in this range they are TAB, LF, VT, FF,
  CR, SPACE and NBSP.
\<close>

definition is_ws :: "char \<Rightarrow> bool" where
  "is_ws c = (c \<in> set [CHR 0x09, CHR 0x0A, CHR 0x0B, CHR 0x0C, CHR 0x0D, CHR 0x20, CHR 0xA0])"

definition trim :: "string \<Rightarrow> string" where
  "trim s = rev (dropWhile is_ws (rev (dropWhile is_ws s)))"

definition NL :: char where
  "NL = CHR 0x0A"

text \<open>\<open>Array.prototype.join\<close> on an array of strings.\<close>

fun join :: "string \<Rightarrow> string list \<Rightarrow> string" where
  "join sep [] = []"
| "join sep [x] = x"
| "join sep (x # y # ys) = x @ sep @ join sep (y # ys)"

text \<open>The decimal rendering of a non-negative integer, as a template literal prints it.\<close>

definition digit_char :: "nat \<Rightarrow> char" where
  "digit_char d = ''0123456789'' ! d"

fun show_nat :: "nat \<Rightarrow> string" where
  "show_nat n = (if n < 10 then [digit_char n] else show_nat (n div 10) @ [digit_char (n mod 10)])"

declare show_nat.simps [simp del]

text \<open>
  A plain object with string values, as the insertion-ordered list of its own properties
  (the keys of a well-formed object are distinct). \<open>obj[k] = v\<close> overwrites the value of
  an own property in place and appends a new one; the key \<open>__proto__\<close> is the accessor
  of \<open>Object.prototype\<close>, whose setter ignores a string, so the assignment creates no
  property.
\<close>

type_synonym strobj = "(string \<times> string) list"

fun upsert :: "string \<Rightarrow> 'v \<Rightarrow> (string \<times> 'v) list \<Rightarrow> (string \<times> 'v) list" where
  "upsert k v [] = [(k, v)]"
| "upsert k v ((k', v') # xs) = (if k = k' then (k, v) # xs else (k', v') # upsert k v xs)"

definition assign :: "string \<Rightarrow> string \<Rightarrow> strobj \<Rightarrow> strobj" where
  "assign k v obj = (if k = ''__proto__'' then obj else upsert k v obj)"

text \<open>
  \<open>Object.entries\<close> lists the array-index keys first (the canonical decimal strings of the
  integers below \<open>2^32 - 1 = 4294967295\<close>), in ascending numeric order, then the other keys in
  insertion order.
\<close>

definition is_digit :: "char \<Rightarrow> bool" where
  "is_digit c = (48 \<le> (of_char c :: nat) \<and> (of_char c :: nat) \<le> 57)"

definition dec :: "string \<Rightarrow> nat" where
  "dec s = foldl (\<lambda>n c. 10 * n + ((of_char c :: nat) - 48)) 0 s"

definition is_array_index :: "string \<Rightarrow> bool" where
  "is_array_index k =
     (k \<noteq> [] \<and> list_all is_digit k \<and> (k = ''0'' \<or> hd k \<noteq> CHR ''0'') \<and> dec k < 4294967295)"

definition entries :: "(string \<times> 'v) list \<Rightarrow> (string \<times> 'v) list" where
  "entries obj =
     sort_key (\<lambda>kv. dec (fst kv)) (filter (\<lambda>kv. is_array_index (fst kv)) obj)
     @ filter (\<lambda>kv. \<not> is_array_index (fst kv)) obj"

section \<open>Products and the eligibility filter (generate-descriptions.js)\<close>

text \<open>
  One input line of the generation script is one product as export-products.js writes
  it. The fields the script reads are typed as the exporter produces them; a field that
  may be absent or \<open>null\<close> is an \<open>option\<close>.
\<close>

record metafield =
  namespace :: string
  key :: string
  mvalue :: string
  mtype :: string

record product =
  p_id :: string
  p_handle :: string
  p_title :: string
  p_productType :: "string option"
  p_vendor :: "string option"
  p_tags :: "string list option"
  p_description :: "string option"
  p_metafields :: "metafield list option"

text \<open>\<open>x || []\<close> and \<open>x || null\<close> on a value that is a string, an array, or missing.\<close>

definition or_empty :: "'a list option \<Rightarrow> 'a list" where
  "or_empty v = (case v of None \<Rightarrow> [] | Some xs \<Rightarrow> xs)"

definition or_null :: "string option \<Rightarrow> string option" where
  "or_null v = (case v of None \<Rightarrow> None | Some s \<Rightarrow> if s = [] then None else Some s)"

text \<open>The loop \<open>for (const m of product.metafields || []) mf[m.key] = m.value\<close>.\<close>

definition build_mf :: "metafield list \<Rightarrow> strobj" where
  "build_mf ms = foldl (\<lambda>mf m. assign (key m) (mvalue m) mf) [] ms"

record attributes =
  a_id :: string
  a_title :: string
  a_productType :: "string option"
  a_vendor :: "string option"
  a_tags :: "string list"
  a_existingDescription :: "string option"
  a_existingLongDescription :: "string option"
  a_metafields :: strobj

definition extractAttributes :: "product \<Rightarrow> attributes" where
  "extractAttributes p =
     (let mf = build_mf (or_empty (p_metafields p)) in
      \<lparr> a_id = p_id p,
        a_title = p_title p,
        a_productType = or_null (p_productType p),
        a_vendor = or_null (p_vendor p),
        a_tags = or_empty (p_tags p),
        a_existingDescription = or_null (p_description p),
        a_existingLongDescription = or_null (map_of mf ''longDescription''),
        a_metafields = mf \<rparr>)"

text \<open>\<open>v && v.trim().length > 0\<close>, read as a condition.\<close>

definition has_text :: "string option \<Rightarrow> bool" where
  "has_text v = (case v of None \<Rightarrow> False | Some s \<Rightarrow> s \<noteq> [] \<and> length (trim s) > 0)"

text \<open>The flag \<open>overwrite\<close> is a module constant of the script; here it is a parameter.\<close>

definition needsGeneration :: "bool \<Rightarrow> product \<Rightarrow> bool" where
  "needsGeneration overwrite p =
     (if overwrite then True
      else
        (let mf = build_mf (or_empty (p_metafields p));
             hasDescription = has_text (p_description p);
             hasLong = has_text (map_of mf ''longDescription'')
         in \<not> hasDescription \<or> \<not> hasLong))"

section \<open>The prompt of a batch (generateBatch)\<close>

text \<open>
  The callback of \<open>attrs.map((a, i) => ...)\<close>: the lines of one product, joined by a
  newline. A line is pushed only for a truthy attribute; the loop over
  \<open>Object.entries(a.metafields)\<close> skips the key \<open>longDescription\<close> and every empty value.
\<close>

definition metafield_lines :: "strobj \<Rightarrow> string list" where
  "metafield_lines mf =
     concat (map (\<lambda>kv. if fst kv = ''longDescription'' then []
                         else if snd kv \<noteq> [] then [fst kv @ '': '' @ snd kv] else [])
                 (entries mf))"

definition product_prompt :: "attributes \<Rightarrow> nat \<Rightarrow> string" where
  "product_prompt a i =
     join [NL]
       ([''Product '' @ show_nat (i + 1) @ '': '' @ a_title a]
        @ (case a_productType a of None \<Rightarrow> [] | Some t \<Rightarrow> [''Type: '' @ t])
        @ (case a_vendor a of None \<Rightarrow> [] | Some v \<Rightarrow> [''Vendor: '' @ v])
        @ (if length (a_tags a) \<noteq> 0 then [''Tags: '' @ join '', '' (a_tags a)] else [])
        @ metafield_lines (a_metafields a))"

definition build_prompt :: "attributes list \<Rightarrow> string" where
  "build_prompt attrs =
     join [NL, NL] (map (\<lambda>ia. product_prompt (snd ia) (fst ia)) (enumerate 0 attrs))"

section \<open>The generation client (generateBatch)\<close>

text \<open>
  A thrown JavaScript error, by its class; the string is \<open>err.message\<close>. \<open>Error\<close> is what
  \<open>throw new Error(...)\<close> raises, \<open>SyntaxError\<close> what \<open>JSON.parse\<close> and
  \<open>response.json()\<close> raise, \<open>TypeError\<close> what a property read on \<open>undefined\<close> or
  \<open>null\<close> raises.
\<close>

datatype error = Error string | SyntaxError string | TypeError string

fun message :: "error \<Rightarrow> string" where
  "message (Error m) = m"
| "message (SyntaxError m) = m"
| "message (TypeError m) = m"

text \<open>
  The request of one batch to the generation service: the prompt, and of the options the
  two bounds of \<open>outputSchema(batch.length)\<close> (every other option is a constant).
\<close>

record schema =
  minItems :: nat
  maxItems :: nat

definition outputSchema :: "nat \<Rightarrow> schema" where
  "outputSchema len = \<lparr> minItems = len, maxItems = len \<rparr>"

record request =
  prompt :: string
  outputFormat :: schema

definition request_of :: "product list \<Rightarrow> request" where
  "request_of batch =
     \<lparr> prompt = ''Generate descriptions for these '' @ show_nat (length batch)
                 @ '' products in order:'' @ [NL, NL]
                 @ build_prompt (map extractAttributes batch),
       outputFormat = outputSchema (length batch) \<rparr>"

text \<open>
  The messages the service streams back. Only a message of type \<open>result\<close> is read: its
  subtype, its \<open>errors\<close>, the array \<open>structured_output.products\<close> (\<open>None\<close> when
  \<open>structured_output\<close> is missing), its cost and its token usage.
\<close>

record desc =
  d_description :: string
  d_longDescription :: string

record usage =
  input_tokens :: "nat option"
  output_tokens :: "nat option"

datatype sdk_message =
    Result (subtype: string) (errors: "string list option")
      (structured_output: "desc list option") (total_cost_usd: "rat option")
      (usage_of: "usage option")
  | Other

type_synonym sdk = "request \<Rightarrow> sdk_message list"

text \<open>
  The \<open>for await\<close> loop over the messages: the last result message is kept, and a result
  whose subtype is not \<open>success\<close> throws at once. \<open>message.errors?.join(", ")\<close> is
  \<open>undefined\<close> when there is no \<open>errors\<close>, which the template prints as such.
\<close>

definition ai_error :: "sdk_message \<Rightarrow> error" where
  "ai_error m =
     Error (''AI error: '' @ subtype m @ '': ''
            @ (case errors m of None \<Rightarrow> ''undefined'' | Some es \<Rightarrow> join '', '' es))"

fun consume :: "sdk_message list \<Rightarrow> sdk_message option \<Rightarrow> error + sdk_message option" where
  "consume [] result = Inr result"
| "consume (Other # ms) result = consume ms result"
| "consume (Result st es so c u # ms) result =
     (if st \<noteq> ''success'' then Inl (ai_error (Result st es so c u))
      else consume ms (Some (Result st es so c u)))"

record generated =
  descriptions :: "desc list"
  cost :: "rat option"
  tokens :: "usage option"

text \<open>
  The part of generateBatch after its first suspension: the loop, then the returned
  object. Reading \<open>result.structured_output.products\<close> throws a TypeError when no result
  message came or when it has no structured output.
\<close>

definition generateBatch :: "sdk \<Rightarrow> product list \<Rightarrow> error + generated" where
  "generateBatch query batch =
     (case consume (query (request_of batch)) None of
        Inl e \<Rightarrow> Inl e
      | Inr None \<Rightarrow> Inl (TypeError ''null is not an object'')
      | Inr (Some Other) \<Rightarrow> Inl (TypeError ''undefined is not an object'')
      | Inr (Some (Result st es None c u)) \<Rightarrow> Inl (TypeError ''undefined is not an object'')
      | Inr (Some (Result st es (Some ds) c u)) \<Rightarrow>
          Inr \<lparr> descriptions = ds, cost = c, tokens = u \<rparr>)"

section \<open>The run of generate-descriptions.js\<close>

text \<open>
  A line of the standard output: the object that \<open>JSON.stringify\<close> renders. A line of
  the error stream: the template that prints it, with the values of its holes; the line
  of \<open>error(err.message)\<close> carries the message.
\<close>

record out_line =
  o_id :: string
  o_handle :: string
  o_title :: string
  o_description :: string
  o_longDescription :: string

datatype log_line =
    ReadingProducts
  | StartingBatch nat
  | DispatchingBatch nat nat
  | ToGenerate nat nat
  | Progress nat nat
  | CostLine rat nat nat
  | SuccessLine nat
  | ErrorLine string

text \<open>
  The variables of \<open>run\<close>, and the two streams. \<open>pending\<close> holds the batches whose
  \<open>processBatch\<close> has been started and not yet settled.
\<close>

record run_state =
  completed :: nat
  skipped :: nat
  totalCost :: rat
  totalInput :: nat
  totalOutput :: nat
  total :: nat
  batch :: "product list"
  pending :: "product list list"
  stdout :: "out_line list"
  stderr :: "log_line list"

definition BATCH_SIZE :: nat where
  "BATCH_SIZE = 20"

definition initial :: run_state where
  "initial =
     \<lparr> completed = 0, skipped = 0, totalCost = 0, totalInput = 0, totalOutput = 0, total = 0,
       batch = [], pending = [], stdout = [], stderr = [] \<rparr>"

definition log :: "log_line \<Rightarrow> run_state \<Rightarrow> run_state" where
  "log l st = st\<lparr>stderr := stderr st @ [l]\<rparr>"

text \<open>
  The calls of the generation service run concurrently with the reading of the input, and
  their answers can arrive at any later moment. The model fixes one schedule that every
  input admits: a call is started where the script starts it, and the answers arrive
  after the input has ended, in the order of the calls. \<open>pending.push(processBatch(b))\<close>
  then runs \<open>processBatch\<close> up to the first suspension of generateBatch (its log line,
  the prompt, the request), and the rest of \<open>processBatch\<close> runs at
  \<open>await Promise.all(pending)\<close>.
\<close>

definition dispatch :: "product list \<Rightarrow> run_state \<Rightarrow> run_state" where
  "dispatch b st = (log (StartingBatch (length b)) st)\<lparr>pending := pending st @ [b]\<rparr>"

text \<open>
  The body of the inner loop for one trimmed line. \<open>parse\<close> stands for \<open>JSON.parse\<close>
  followed by the reading of the product's fields: the product of the line, or the
  message of the SyntaxError.
\<close>

type_synonym parser = "string \<Rightarrow> string + product"

definition process_line ::
    "parser \<Rightarrow> bool \<Rightarrow> string \<Rightarrow> run_state \<Rightarrow> (error \<times> run_state) + run_state" where
  "process_line parse overwrite line st =
     (if line = [] then Inr st
      else
        (case parse line of
           Inl m \<Rightarrow> Inl (SyntaxError m, st)
         | Inr product \<Rightarrow>
             if \<not> needsGeneration overwrite product then Inr (st\<lparr>skipped := skipped st + 1\<rparr>)
             else
               (let st1 = st\<lparr>batch := batch st @ [product], total := total st + 1\<rparr> in
                if length (batch st1) \<ge> BATCH_SIZE then
                  Inr ((dispatch (batch st1)
                          (log (DispatchingBatch (total st1) (skipped st1)) st1))\<lparr>batch := []\<rparr>)
                else Inr st1)))"

text \<open>\<open>buffer.indexOf("\n")\<close>: the index of the first newline, if there is one.\<close>

fun indexOf :: "char \<Rightarrow> string \<Rightarrow> nat option" where
  "indexOf c [] = None"
| "indexOf c (x # xs) = (if x = c then Some 0 else map_option Suc (indexOf c xs))"

lemma indexOf_less: "indexOf c s = Some n \<Longrightarrow> n < length s"
  by (induction s arbitrary: n) (auto split: if_splits)

text \<open>
  The inner loop \<open>while ((newline = buffer.indexOf("\n")) !== -1)\<close>: it returns the rest
  of the buffer, which holds no newline.
\<close>

function drain ::
    "parser \<Rightarrow> bool \<Rightarrow> string \<Rightarrow> run_state \<Rightarrow> (error \<times> run_state) + (string \<times> run_state)" where
  "drain parse overwrite buffer st =
     (case indexOf NL buffer of
        None \<Rightarrow> Inr (buffer, st)
      | Some newline \<Rightarrow>
          (case process_line parse overwrite (trim (take newline buffer)) st of
             Inl e \<Rightarrow> Inl e
           | Inr st' \<Rightarrow> drain parse overwrite (drop (newline + 1) buffer) st'))"
  by pat_completeness auto
termination
  by (relation "measure (\<lambda>(parse, overwrite, buffer, st). length buffer)")
    (auto dest: indexOf_less)

declare drain.simps [simp del]

text \<open>
  The outer loop over \<open>reader.read()\<close>: the input is the finite list of the chunks read
  before the stream ends, each already decoded. The buffer left at the end is dropped.
\<close>

fun read_loop ::
    "parser \<Rightarrow> bool \<Rightarrow> string list \<Rightarrow> string \<Rightarrow> run_state \<Rightarrow>
       (error \<times> run_state) + (string \<times> run_state)" where
  "read_loop parse overwrite [] buffer st = Inr (buffer, st)"
| "read_loop parse overwrite (chunk # chunks) buffer st =
     (case drain parse overwrite (buffer @ chunk) st of
        Inl e \<Rightarrow> Inl e
      | Inr (buffer', st') \<Rightarrow> read_loop parse overwrite chunks buffer' st')"

text \<open>
  The loop of \<open>processBatch\<close> that prints one line per product: \<open>descriptions[i]\<close> is
  \<open>undefined\<close> from the end of the array on, and reading its \<open>description\<close> throws.
\<close>

definition out_line_of :: "product \<Rightarrow> desc \<Rightarrow> out_line" where
  "out_line_of p d =
     \<lparr> o_id = p_id p, o_handle = p_handle p, o_title = p_title p,
       o_description = d_description d, o_longDescription = d_longDescription d \<rparr>"

fun emit :: "product list \<Rightarrow> desc list \<Rightarrow> run_state \<Rightarrow> (error \<times> run_state) + run_state" where
  "emit [] ds st = Inr st"
| "emit (p # ps) [] st = Inl (TypeError ''undefined is not an object'', st)"
| "emit (p # ps) (d # ds) st = emit ps ds (st\<lparr>stdout := stdout st @ [out_line_of p d]\<rparr>)"

definition tokens_or_zero :: "usage option \<Rightarrow> (usage \<Rightarrow> nat option) \<Rightarrow> nat" where
  "tokens_or_zero u field = (case u of None \<Rightarrow> 0 | Some v \<Rightarrow> (case field v of None \<Rightarrow> 0 | Some n \<Rightarrow> n))"

definition processBatch ::
    "sdk \<Rightarrow> product list \<Rightarrow> run_state \<Rightarrow> (error \<times> run_state) + run_state" where
  "processBatch query products st =
     (case generateBatch query products of
        Inl e \<Rightarrow> Inl (e, st)
      | Inr g \<Rightarrow>
          (let st1 = st\<lparr>totalCost := totalCost st + (case cost g of None \<Rightarrow> 0 | Some c \<Rightarrow> c),
                        totalInput := totalInput st + tokens_or_zero (tokens g) input_tokens,
                        totalOutput := totalOutput st + tokens_or_zero (tokens g) output_tokens\<rparr>
           in case emit products (descriptions g) st1 of
                Inl e \<Rightarrow> Inl e
              | Inr st2 \<Rightarrow>
                  (let st3 = st2\<lparr>completed := completed st2 + length products\<rparr>
                   in Inr (log (Progress (completed st3) (total st3)) st3))))"

text \<open>\<open>await Promise.all(pending)\<close> under the schedule above: the first rejection ends the run.\<close>

fun settle :: "sdk \<Rightarrow> product list list \<Rightarrow> run_state \<Rightarrow> (error \<times> run_state) + run_state" where
  "settle query [] st = Inr st"
| "settle query (b # bs) st =
     (case processBatch query b st of
        Inl e \<Rightarrow> Inl e
      | Inr st' \<Rightarrow> settle query bs st')"

text \<open>The part of \<open>run\<close> after the read loop: the flush, the join, the closing lines.\<close>

definition finish :: "sdk \<Rightarrow> run_state \<Rightarrow> (error \<times> run_state) + run_state" where
  "finish query st =
     (let st1 = (if length (batch st) > 0 then dispatch (batch st) st else st);
          st2 = log (ToGenerate (total st1) (skipped st1)) st1
      in case settle query (pending st2) st2 of
           Inl e \<Rightarrow> Inl e
         | Inr st3 \<Rightarrow>
             Inr (log (SuccessLine (completed st3))
                   (log (CostLine (totalCost st3) (totalInput st3) (totalOutput st3)) st3)))"

definition run_body ::
    "parser \<Rightarrow> bool \<Rightarrow> sdk \<Rightarrow> string list \<Rightarrow> (error \<times> run_state) + run_state" where
  "run_body parse overwrite query chunks =
     (case read_loop parse overwrite chunks [] (log ReadingProducts initial) of
        Inl e \<Rightarrow> Inl e
      | Inr (buffer, st) \<Rightarrow> finish query st)"

text \<open>
  What a run leaves behind: the two streams, the batches handed to the generation client,
  and the exit code. \<open>run().catch\<close> prints the message of the error and exits with 1.
\<close>

record outcome =
  out_lines :: "out_line list"
  err_lines :: "log_line list"
  dispatched :: "product list list"
  exit_code :: nat

definition run_generate :: "parser \<Rightarrow> bool \<Rightarrow> sdk \<Rightarrow> string list \<Rightarrow> outcome" where
  "run_generate parse overwrite query chunks =
     (case run_body parse overwrite query chunks of
        Inl (e, st) \<Rightarrow>
          \<lparr> out_lines = stdout st, err_lines = stderr st @ [ErrorLine (message e)],
            dispatched = pending st, exit_code = 1 \<rparr>
      | Inr st \<Rightarrow>
          \<lparr> out_lines = stdout st, err_lines = stderr st,
            dispatched = pending st, exit_code = 0 \<rparr>)"

section \<open>The Shopify client of export-products.js\<close>

text \<open>
  JSON values as \<open>response.json()\<close> returns them; numbers are integers here. An object
  is the list of its properties in insertion order. A node of a connection (a product, a
  variant, a media item, a metafield) is an object.
\<close>

datatype json =
    JNull | JBool bool | JNum int | JStr string | JArr "json list" | JObj "(string \<times> json) list"

type_synonym obj = "(string \<times> json) list"

record edge =
  node :: obj

record pageInfo =
  hasNextPage :: bool
  endCursor :: "string option"

record connection =
  edges :: "edge list"
  pageInfo :: pageInfo

text \<open>
  The \<open>data\<close> of a response, by the field the query selects: \<open>products\<close>, \<open>product\<close> (with
  its \<open>variants\<close> or its \<open>media\<close>) or \<open>node\<close> (with its \<open>metafields\<close>); \<open>product\<close> and
  \<open>node\<close> are \<open>null\<close> when the id names nothing.
\<close>

datatype data =
    ProductsData connection
  | ProductData "connection option"
  | NodeData "connection option"

text \<open>
  The cost envelope \<open>extensions.cost\<close>, with the three numbers the throttle reads, as
  integers. A JavaScript number that a division by zero can yield is not finite.
\<close>

record throttleStatus =
  currentlyAvailable :: int
  restoreRate :: int

record query_cost =
  requestedQueryCost :: int
  throttleStatus :: "throttleStatus option"

datatype jsnum = Finite int | PosInfinity | NegInfinity | NaN

record body =
  b_errors :: "string option"
  b_cost :: "query_cost option"
  b_data :: data

text \<open>
  A response of \<open>fetch\<close>: \<open>response.ok\<close>, the status, the body as text, and the body as
  \<open>response.json()\<close> parses it (or the message of its SyntaxError). \<open>b_errors\<close> is
  \<open>JSON.stringify(json.errors)\<close> when \<open>json.errors\<close> is truthy.
\<close>

record response =
  ok :: bool
  status :: nat
  body_text :: string
  body_json :: "string + body"

datatype query = PRODUCTS_QUERY | VARIANTS_QUERY | MEDIA_QUERY | METAFIELDS_QUERY

record variables =
  v_id :: "json option"
  v_cursor :: "string option"

text \<open>
  The remote API is a function of the request (the catalogue does not change during the
  export); a rejected \<open>fetch\<close> is an error.
\<close>

type_synonym fetcher = "query \<Rightarrow> variables \<Rightarrow> error + response"

text \<open>
  What the export does, in order: requests, sleeps, lines of the error stream (by their
  template), lines of the standard output (the object that \<open>JSON.stringify\<close> renders).
\<close>

datatype export_log =
    StartingExport | Throttled jsnum | Exported nat | Done nat | Failed string

datatype event =
    Fetch query variables
  | Sleep jsnum
  | Stderr export_log
  | Stdout obj

type_synonym 'a io = "event list \<Rightarrow> event list \<times> (error + 'a)"

text \<open>\<open>Math.ceil(requestedQueryCost / restoreRate) * 1000\<close> on integers.\<close>

definition throttle_wait :: "int \<Rightarrow> int \<Rightarrow> jsnum" where
  "throttle_wait q r =
     (if r = 0 then (if q > 0 then PosInfinity else if q < 0 then NegInfinity else NaN)
      else Finite (\<lceil>(of_int q :: rat) / of_int r\<rceil> * 1000))"

text \<open>
  \<open>cost?.throttleStatus?.currentlyAvailable < 100\<close>: the wait to insert, if any. A missing
  cost or throttle status compares as \<open>undefined < 100\<close>, which is false.
\<close>

definition throttled :: "query_cost option \<Rightarrow> jsnum option" where
  "throttled c =
     (case c of
        None \<Rightarrow> None
      | Some cst \<Rightarrow>
          (case throttleStatus cst of
             None \<Rightarrow> None
           | Some ts \<Rightarrow>
               if currentlyAvailable ts < 100
               then Some (throttle_wait (requestedQueryCost cst) (restoreRate ts))
               else None))"

definition shopify :: "fetcher \<Rightarrow> query \<Rightarrow> variables \<Rightarrow> data io" where
  "shopify fetch q vars tr =
     (let tr1 = tr @ [Fetch q vars] in
      case fetch q vars of
        Inl e \<Rightarrow> (tr1, Inl e)
      | Inr response \<Rightarrow>
          if \<not> ok response then
            (tr1, Inl (Error (''Shopify API '' @ show_nat (status response) @ '': ''
                              @ body_text response)))
          else
            (case body_json response of
               Inl m \<Rightarrow> (tr1, Inl (SyntaxError m))
             | Inr json \<Rightarrow>
                 (case b_errors json of
                    Some errs \<Rightarrow> (tr1, Inl (Error (''GraphQL: '' @ errs)))
                  | None \<Rightarrow>
                      (case throttled (b_cost json) of
                         Some wait \<Rightarrow>
                           (tr1 @ [Stderr (Throttled wait), Sleep wait], Inr (b_data json))
                       | None \<Rightarrow> (tr1, Inr (b_data json))))))"

section \<open>The paginated fetcher (fetchAllPages)\<close>

text \<open>
  The three \<open>extract\<close> callbacks. Reading a property of \<open>null\<close> or \<open>undefined\<close> throws a
  TypeError.
\<close>

type_synonym extractor = "data \<Rightarrow> error + connection"



definition node_metafields :: extractor where
  "node_metafields d =
     (case d of
        NodeData (Some c) \<Rightarrow> Inr c
      | NodeData None \<Rightarrow> Inl (TypeError ''null is not an object'')
      | _ \<Rightarrow> Inl (TypeError ''undefined is not an object''))"

text \<open>
  The loop of fetchAllPages, with \<open>items\<close> and \<open>cursor\<close> as arguments. It need not end (a
  server can report a next page for ever): a run that does not end is \<open>None\<close>.
\<close>

partial_function (option) fetch_loop ::
    "fetcher \<Rightarrow> query \<Rightarrow> json option \<Rightarrow> extractor \<Rightarrow> obj list \<Rightarrow> string option \<Rightarrow>
       event list \<Rightarrow> (event list \<times> (error + obj list)) option" where
  "fetch_loop fetch q ident extract_fn items cursor tr =
     (case shopify fetch q \<lparr> v_id = ident, v_cursor = cursor \<rparr> tr of
        (tr1, Inl e) \<Rightarrow> Some (tr1, Inl e)
      | (tr1, Inr d) \<Rightarrow>
          (case extract_fn d of
             Inl e \<Rightarrow> Some (tr1, Inl e)
           | Inr connection \<Rightarrow>
               (let items1 = items @ map node (edges connection) in
                if \<not> hasNextPage (pageInfo connection) then Some (tr1, Inr items1)
                else fetch_loop fetch q ident extract_fn items1
                       (endCursor (pageInfo connection)) tr1)))"

definition fetchAllPages ::
    "fetcher \<Rightarrow> query \<Rightarrow> json option \<Rightarrow> extractor \<Rightarrow>
       event list \<Rightarrow> (event list \<times> (error + obj list)) option" where
  "fetchAllPages fetch q ident extract_fn tr = fetch_loop fetch q ident extract_fn [] None tr"


section \<open>The run of export-products.js\<close>
















fun requests :: "event list \<Rightarrow> (query \<times> variables) list" where
  "requests [] = []"
| "requests (Fetch q vars # evs) = (q, vars) # requests evs"
| "requests (ev # evs) = requests evs"


section \<open>Words of the specification about pages\<close>

text \<open>
  The page a request for a cursor yields, when the request succeeds. A server serves a
  sequence of pages from a cursor when the request for the cursor yields the first page,
  each page but the last reports a next page, and the request for the end cursor of a
  page yields the page after it.
\<close>

definition page_at ::
    "fetcher \<Rightarrow> query \<Rightarrow> json option \<Rightarrow> extractor \<Rightarrow> string option \<Rightarrow> connection option" where
  "page_at fetch q ident extract_fn cursor =
     (case snd (shopify fetch q \<lparr> v_id = ident, v_cursor = cursor \<rparr> []) of
        Inl e \<Rightarrow> None
      | Inr d \<Rightarrow> (case extract_fn d of Inl e \<Rightarrow> None | Inr c \<Rightarrow> Some c))"

fun serves ::
    "fetcher \<Rightarrow> query \<Rightarrow> json option \<Rightarrow> extractor \<Rightarrow> string option \<Rightarrow> connection list \<Rightarrow> bool" where
  "serves fetch q ident extract_fn cursor [] = False"
| "serves fetch q ident extract_fn cursor [c] =
     (page_at fetch q ident extract_fn cursor = Some c \<and> \<not> hasNextPage (pageInfo c))"
| "serves fetch q ident extract_fn cursor (c # c' # cs) =
     (page_at fetch q ident extract_fn cursor = Some c \<and> hasNextPage (pageInfo c)
      \<and> serves fetch q ident extract_fn (endCursor (pageInfo c)) (c' # cs))"

definition nodes_of :: "connection \<Rightarrow> obj list" where
  "nodes_of c = map node (edges c)"

text \<open>
  The events of one call of \<open>shopify\<close>, and the cursors of the requests that fetch a
  sequence of pages: the first cursor, then the end cursor of each page but the last.
\<close>

definition call_events :: "fetcher \<Rightarrow> query \<Rightarrow> variables \<Rightarrow> event list" where
  "call_events fetch q vars = fst (shopify fetch q vars [])"

definition cursors_of :: "string option \<Rightarrow> connection list \<Rightarrow> string option list" where
  "cursors_of cursor cs = cursor # map (\<lambda>c. endCursor (pageInfo c)) (butlast cs)"

text \<open>
  A simulated collection: the items \<open>xs\<close> served in pages of \<open>k\<close> items. The cursor of
  an offset is an opaque token that encodes it (here, in unary); a page reports a next
  page when items remain after it.
\<close>

definition cursor_of :: "nat \<Rightarrow> string" where
  "cursor_of off = replicate off (CHR ''c'')"

definition offset_of :: "string option \<Rightarrow> nat" where
  "offset_of cursor = (case cursor of None \<Rightarrow> 0 | Some c \<Rightarrow> length c)"

definition paged_page :: "nat \<Rightarrow> obj list \<Rightarrow> string option \<Rightarrow> connection" where
  "paged_page k xs cursor =
     (let off = offset_of cursor; page = take k (drop off xs) in
      \<lparr> edges = map (\<lambda>n. \<lparr> node = n \<rparr>) page,
        pageInfo = \<lparr> hasNextPage = (off + k < length xs),
                     endCursor = (if page = [] then None
                                  else Some (cursor_of (off + length page))) \<rparr> \<rparr>)"

definition paged :: "nat \<Rightarrow> obj list \<Rightarrow> fetcher" where
  "paged k xs q vars =
     Inr \<lparr> ok = True, status = 200, body_text = [],
           body_json = Inr \<lparr> b_errors = None, b_cost = None,
                             b_data = NodeData (Some (paged_page k xs (v_cursor vars))) \<rparr> \<rparr>"

text \<open>
  A response of the API that succeeds with the body \<open>js\<close>, whose cost envelope \<open>c\<close>
  carries the throttle status \<open>ts\<close>.
\<close>

definition costed_response ::
    "fetcher \<Rightarrow> query \<Rightarrow> variables \<Rightarrow> body \<Rightarrow> query_cost \<Rightarrow> throttleStatus \<Rightarrow> bool" where
  "costed_response fetch q vars js c ts =
     (case fetch q vars of
        Inl e \<Rightarrow> False
      | Inr resp \<Rightarrow>
          ok resp \<and> body_json resp = Inr js \<and> b_errors js = None
          \<and> b_cost js = Some c \<and> throttleStatus c = Some ts)"

section \<open>Words of the specification about enriched records\<close>









section \<open>Words of the specification about the input stream and the batches\<close>

text \<open>
  An input text is a sequence of lines, each ended by a newline, followed by a last part
  without a newline (empty when the text ends with a newline). The records of the lines
  are the products of the lines that are not blank once trimmed. The batches of a
  sequence of records are its consecutive groups of a fixed size, the last one shorter
  when the size does not divide the length.
\<close>

definition text_of :: "string list \<Rightarrow> string \<Rightarrow> string" where
  "text_of ls r = concat (map (\<lambda>l. l @ [NL]) ls) @ r"

definition well_split :: "string list \<Rightarrow> string \<Rightarrow> bool" where
  "well_split ls r = (list_all (\<lambda>l. NL \<notin> set l) ls \<and> NL \<notin> set r)"

definition is_blank :: "string \<Rightarrow> bool" where
  "is_blank l = (trim l = [])"



function batches_of :: "nat \<Rightarrow> 'a list \<Rightarrow> 'a list list" where
  "batches_of n xs =
     (if n = 0 \<or> xs = [] then [] else take n xs # batches_of n (drop n xs))"
  by pat_completeness auto
termination
  by (relation "measure (\<lambda>(n, xs). length xs)") auto

declare batches_of.simps [simp del]

text \<open>The loop body applied to a sequence of lines, one after the other.\<close>

fun process_lines ::
    "parser \<Rightarrow> bool \<Rightarrow> string list \<Rightarrow> run_state \<Rightarrow> (error \<times> run_state) + run_state" where
  "process_lines parse overwrite [] st = Inr st"
| "process_lines parse overwrite (l # ls) st =
     (case process_line parse overwrite (trim l) st of
        Inl e \<Rightarrow> Inl e
      | Inr st' \<Rightarrow> process_lines parse overwrite ls st')"

text \<open>The lines a settled batch prints when the client returns \<open>g\<close> for it.\<close>

definition lines_of :: "product list \<Rightarrow> desc list \<Rightarrow> out_line list" where
  "lines_of b ds = map (\<lambda>i. out_line_of (b ! i) (ds ! i)) [0..<length b]"




fun is_error :: "log_line \<Rightarrow> bool" where
  "is_error (ErrorLine m) = True"
| "is_error l = False"



section \<open>Words of the specification about errors\<close>







section \<open>Words of the specification about metafields\<close>

text \<open>
  The value of the last metafield of a list that carries a given key, whatever its
  namespace; a text value that is missing or empty once trimmed; a product with the
  namespaces of its metafields rewritten; a product without the metafields of a key.
\<close>

definition last_value :: "string \<Rightarrow> metafield list \<Rightarrow> string option" where
  "last_value k ms =
     (let xs = filter (\<lambda>m. key m = k) ms in if xs = [] then None else Some (mvalue (last xs)))"

definition empty_trimmed :: "string option \<Rightarrow> bool" where
  "empty_trimmed v = (case v of None \<Rightarrow> True | Some s \<Rightarrow> trim s = [])"

definition rename_namespaces :: "(metafield \<Rightarrow> string) \<Rightarrow> product \<Rightarrow> product" where
  "rename_namespaces f p =
     p\<lparr>p_metafields := map_option (map (\<lambda>m. m\<lparr>namespace := f m\<rparr>)) (p_metafields p)\<rparr>"

definition without_key :: "string \<Rightarrow> product \<Rightarrow> product" where
  "without_key k p =
     p\<lparr>p_metafields := map_option (filter (\<lambda>m. key m \<noteq> k)) (p_metafields p)\<rparr>"

section \<open>Example inputs\<close>

text \<open>
  A product whose \<open>longDescription\<close> metafield exists twice: with text in the namespace
  \<open>custom\<close>, and blank in the namespace \<open>legacy\<close>, later in the list.
\<close>

definition example_product :: product where
  "example_product =
     \<lparr> p_id = ''gid://shopify/Product/1'', p_handle = ''shirt'', p_title = ''Shirt'',
       p_productType = Some ''T-Shirts'', p_vendor = None,
       p_tags = Some [''cotton'', ''basics''],
       p_description = Some ''Soft cotton.'',
       p_metafields = Some
         [\<lparr>namespace = ''custom'', key = ''longDescription'', mvalue = ''Regular fit.'',
            mtype = ''string''\<rparr>,
          \<lparr>namespace = ''custom'', key = ''material'', mvalue = ''cotton'',
            mtype = ''string''\<rparr>,
          \<lparr>namespace = ''legacy'', key = ''longDescription'', mvalue = ''  '',
            mtype = ''string''\<rparr>] \<rparr>"

text \<open>The same product with the metafields of the namespace \<open>custom\<close> only.\<close>

definition described_product :: product where
  "described_product =
     example_product\<lparr>p_metafields := Some
         [\<lparr>namespace = ''custom'', key = ''longDescription'', mvalue = ''Regular fit.'',
            mtype = ''string''\<rparr>,
          \<lparr>namespace = ''custom'', key = ''material'', mvalue = ''cotton'',
            mtype = ''string''\<rparr>]\<rparr>"

text \<open>
  A stand-in for \<open>JSON.parse\<close> on one-word lines: \<open>d<id>\<close> is a product that has both
  descriptions, \<open>e<id>\<close> one without a description, anything else is malformed.
\<close>

definition example_parse :: parser where
  "example_parse l =
     (case l of
        [] \<Rightarrow> Inl ''JSON Parse error: Unexpected EOF''
      | c # n \<Rightarrow>
          if c = CHR ''d'' then Inr (described_product\<lparr>p_id := n\<rparr>)
          else if c = CHR ''e'' then Inr (described_product\<lparr>p_id := n, p_description := None\<rparr>)
          else Inl ''JSON Parse error: Unexpected identifier'')"

text \<open>
  Three generation services: one that answers every request with as many numbered
  descriptions as the schema asks for, one that returns one description more, and one
  that fails with a subtype other than \<open>success\<close>.
\<close>

definition numbered :: "nat \<Rightarrow> desc" where
  "numbered i = \<lparr> d_description = ''D'' @ show_nat i, d_longDescription = ''L'' @ show_nat i \<rparr>"

definition example_sdk :: sdk where
  "example_sdk req =
     [Other,
      Result ''success'' None (Some (map numbered [0..<minItems (outputFormat req)]))
        (Some (1 / 100)) (Some \<lparr> input_tokens = Some 10, output_tokens = Some 5 \<rparr>)]"

definition surplus_sdk :: sdk where
  "surplus_sdk req =
     [Result ''success'' None (Some (map numbered [0..<minItems (outputFormat req) + 1]))
        None None]"




text \<open>
  An input of three complete lines, the third blank, and a last line \<open>e3\<close> that no
  newline ends; it arrives in two chunks.
\<close>

definition partial_lines :: "string list" where
  "partial_lines = [''e1'', ''d2'', ''  '']"

definition partial_chunks :: "string list" where
  "partial_chunks = [''e1'' @ [NL] @ ''d2'', [NL] @ ''  '' @ [NL] @ ''e3'']"

text \<open>A collection of five items, and its three pages of two items.\<close>

definition five_items :: "obj list" where
  "five_items =
     [[(''key'', JStr ''a'')], [(''key'', JStr ''b'')], [(''key'', JStr ''c'')],
      [(''key'', JStr ''d'')], [(''key'', JStr ''e'')]]"

definition three_pages :: "connection list" where
  "three_pages =
     [paged_page 2 five_items None, paged_page 2 five_items (Some ''cc''),
      paged_page 2 five_items (Some ''cccc'')]"

text \<open>
  The same collection behind an API that reports a cost: with 50 points of capacity left,
  a cost of 10 and a restore rate of 5; with exactly 100 points left; and with 50 points
  left and a restore rate of 0.
\<close>

definition low_capacity :: query_cost where
  "low_capacity =
     \<lparr> requestedQueryCost = 10,
       throttleStatus = Some \<lparr> currentlyAvailable = 50, restoreRate = 5 \<rparr> \<rparr>"

definition floor_capacity :: query_cost where
  "floor_capacity =
     \<lparr> requestedQueryCost = 10,
       throttleStatus = Some \<lparr> currentlyAvailable = 100, restoreRate = 5 \<rparr> \<rparr>"

definition stalled_capacity :: query_cost where
  "stalled_capacity =
     \<lparr> requestedQueryCost = 10,
       throttleStatus = Some \<lparr> currentlyAvailable = 50, restoreRate = 0 \<rparr> \<rparr>"

definition costing :: "query_cost \<Rightarrow> nat \<Rightarrow> obj list \<Rightarrow> fetcher" where
  "costing c k xs q vars =
     Inr \<lparr> ok = True, status = 200, body_text = [],
           body_json = Inr \<lparr> b_errors = None, b_cost = Some c,
                             b_data = NodeData (Some (paged_page k xs (v_cursor vars))) \<rparr> \<rparr>"

















section \<open>Facts about objects\<close>

lemma map_of_upsert: "map_of (upsert k v xs) k' = (if k' = k then Some v else map_of xs k')"
  by (induction xs) auto

lemma map_of_assign:
  "map_of (assign k v obj) k' =
     (if k' = k \<and> k \<noteq> ''__proto__'' then Some v else map_of obj k')"
  by (simp add: assign_def map_of_upsert)

lemma last_value_snoc:
  "last_value k (ms @ [m]) = (if key m = k then Some (mvalue m) else last_value k ms)"
  by (simp add: last_value_def)

lemma build_mf_snoc: "build_mf (ms @ [m]) = assign (key m) (mvalue m) (build_mf ms)"
  by (simp add: build_mf_def)

lemma map_of_build_mf:
  "map_of (build_mf ms) k = (if k = ''__proto__'' then None else last_value k ms)"
proof (induction ms rule: rev_induct)
  case Nil
  show ?case by (simp add: build_mf_def last_value_def)
next
  case (snoc m ms)
  then show ?case
    by (auto simp: build_mf_snoc map_of_assign last_value_snoc)
qed

lemma trim_Nil: "trim [] = []"
  by (simp add: trim_def)

lemma has_text_iff: "has_text v = (\<not> empty_trimmed v)"
  by (cases v) (auto simp: has_text_def empty_trimmed_def trim_Nil)

lemma build_mf_rename:
  "build_mf (map (\<lambda>m. m\<lparr>namespace := f m\<rparr>) ms) = build_mf ms"
proof (induction ms rule: rev_induct)
  case Nil
  show ?case by (simp add: build_mf_def)
next
  case (snoc m ms)
  then show ?case by (simp add: build_mf_snoc)
qed

lemma filter_upsert:
  "filter (\<lambda>kv. fst kv \<noteq> a) (upsert k v xs) =
     (if k = a then filter (\<lambda>kv. fst kv \<noteq> a) xs else upsert k v (filter (\<lambda>kv. fst kv \<noteq> a) xs))"
  by (induction xs) auto

lemma filter_build_mf:
  "filter (\<lambda>kv. fst kv \<noteq> a) (build_mf ms) = build_mf (filter (\<lambda>m. key m \<noteq> a) ms)"
proof (induction ms rule: rev_induct)
  case Nil
  show ?case by (simp add: build_mf_def)
next
  case (snoc m ms)
  then show ?case by (auto simp: build_mf_snoc assign_def filter_upsert)
qed

lemma filter_entries:
  "filter P (entries obj) = entries (filter P obj)"
proof -
  have "filter P (sort_key f xs) = sort_key f (filter P xs)" for f :: "string \<times> 'a \<Rightarrow> nat" and xs
    by (simp add: filter_sort)
  then show ?thesis
    by (simp add: entries_def conj_commute)
qed

lemma concat_map_skip:
  assumes "\<And>x. \<not> P x \<Longrightarrow> g x = []"
  shows "concat (map g xs) = concat (map g (filter P xs))"
  using assms by (induction xs) auto

lemma metafield_lines_filter:
  "metafield_lines mf = metafield_lines (filter (\<lambda>kv. fst kv \<noteq> ''longDescription'') mf)"
proof -
  let ?P = "\<lambda>kv :: string \<times> string. fst kv \<noteq> ''longDescription''"
  let ?g = "\<lambda>kv :: string \<times> string. if fst kv = ''longDescription'' then []
                         else if snd kv \<noteq> [] then [fst kv @ '': '' @ snd kv] else []"
  have "concat (map ?g (entries mf)) = concat (map ?g (filter ?P (entries mf)))"
    by (rule concat_map_skip) simp
  also have "\<dots> = concat (map ?g (entries (filter ?P mf)))"
    by (simp only: filter_entries)
  finally show ?thesis
    by (simp only: metafield_lines_def)
qed

section \<open>The eligibility filter\<close>

text \<open>
  Claim C3. A product is selected for generation exactly when the override flag is set, or
  its description is missing or empty once trimmed, or its \<open>longDescription\<close> metafield
  (the last metafield of the list with that key) is missing or empty once trimmed. The
  decision is a function of the flag and the product alone, and it returns nothing but
  the decision, so it cannot change the product or depend on an earlier run; with the
  flag every product is selected.
\<close>

theorem needsGeneration_iff:
  "needsGeneration overwrite p =
     (overwrite \<or> empty_trimmed (p_description p)
        \<or> empty_trimmed (last_value ''longDescription'' (or_empty (p_metafields p))))
   \<and> needsGeneration True p"
  by (auto simp add: needsGeneration_def Let_def has_text_iff map_of_build_mf)

theorem needsGeneration_iff_witness:
  "needsGeneration False example_product \<and> needsGeneration True described_product
   \<and> \<not> needsGeneration False described_product"
  using needsGeneration_iff [of False example_product]
    needsGeneration_iff [of True described_product]
    needsGeneration_iff [of False described_product]
  by (simp add: example_product_def described_product_def empty_trimmed_def last_value_def
      or_empty_def trim_def is_ws_def)

section \<open>Metafields are looked up by key alone\<close>

lemma or_empty_map_option: "or_empty (map_option f v) = f (or_empty v)" if "f [] = []"
  using that by (cases v) (simp_all add: or_empty_def)

text \<open>
  Claim C10. Rewriting the namespaces of the metafields changes neither the eligibility
  decision nor the attributes extracted for the prompt; the object of metafields maps a
  key to the value of the last metafield of the list with that key, whatever its
  namespace; and the prompt of a product is the prompt of the same product without its
  \<open>longDescription\<close> metafields, so that metafield never reaches the prompt. In the
  witness the namespace \<open>legacy\<close> decides the eligibility of a product whose
  \<open>custom\<close> metafield has text.
\<close>

theorem metafields_by_key_only:
  "needsGeneration overwrite (rename_namespaces f p) = needsGeneration overwrite p
   \<and> extractAttributes (rename_namespaces f p) = extractAttributes p
   \<and> map_of (a_metafields (extractAttributes p)) k =
       (if k = ''__proto__'' then None else last_value k (or_empty (p_metafields p)))
   \<and> product_prompt (extractAttributes (without_key ''longDescription'' p)) i =
       product_prompt (extractAttributes p) i"
proof -
  have ren: "build_mf (or_empty (p_metafields (rename_namespaces f p))) =
      build_mf (or_empty (p_metafields p))"
    by (simp add: rename_namespaces_def or_empty_map_option build_mf_rename)
  have a: "needsGeneration overwrite (rename_namespaces f p) = needsGeneration overwrite p"
    unfolding needsGeneration_def ren by (simp add: rename_namespaces_def)
  have b: "extractAttributes (rename_namespaces f p) = extractAttributes p"
    unfolding extractAttributes_def ren by (simp add: rename_namespaces_def)
  have c: "map_of (a_metafields (extractAttributes p)) k =
       (if k = ''__proto__'' then None else last_value k (or_empty (p_metafields p)))"
    by (simp add: extractAttributes_def Let_def map_of_build_mf)
  have "metafield_lines (build_mf (or_empty (p_metafields (without_key ''longDescription'' p)))) =
      metafield_lines (build_mf (or_empty (p_metafields p)))"
    by (subst (2) metafield_lines_filter)
      (simp add: without_key_def or_empty_map_option filter_build_mf)
  then have d: "product_prompt (extractAttributes (without_key ''longDescription'' p)) i =
       product_prompt (extractAttributes p) i"
    by (simp add: product_prompt_def extractAttributes_def Let_def without_key_def)
  from a b c d show ?thesis by blast
qed

theorem metafields_by_key_only_witness:
  "needsGeneration False example_product \<and> \<not> needsGeneration False described_product
   \<and> map_of (a_metafields (extractAttributes example_product)) ''longDescription'' = Some ''  ''
   \<and> product_prompt (extractAttributes described_product) 0 =
       ''Product 1: Shirt'' @ [NL] @ ''Type: T-Shirts'' @ [NL] @ ''Tags: cotton, basics'' @ [NL]
         @ ''material: cotton''"
  using metafields_by_key_only [of False "\<lambda>m. ''custom''" example_product "''longDescription''" 0]
    metafields_by_key_only [of False "\<lambda>m. ''custom''" described_product "''longDescription''" 0]
  by (simp add: example_product_def described_product_def needsGeneration_def has_text_def 
      extractAttributes_def product_prompt_def metafield_lines_def entries_def is_array_index_def
      is_digit_def build_mf_def assign_def
      without_key_def rename_namespaces_def or_null_def
      or_empty_def trim_def is_ws_def last_value_def show_nat.simps digit_char_def)

section \<open>The read loop works line by line\<close>

lemma indexOf_None: "c \<notin> set s \<Longrightarrow> indexOf c s = None"
  by (induction s) auto

lemma indexOf_None_iff: "indexOf c s = None \<longleftrightarrow> c \<notin> set s"
  by (induction s) auto

lemma indexOf_first: "c \<notin> set l \<Longrightarrow> indexOf c (l @ c # r) = Some (length l)"
  by (induction l) auto

lemma indexOf_append: "indexOf c a = Some n \<Longrightarrow> indexOf c (a @ b) = Some n"
  by (induction a arbitrary: n) (auto split: if_splits)

lemma drain_None: "indexOf NL buffer = None \<Longrightarrow> drain parse ow buffer st = Inr (buffer, st)"
  by (subst drain.simps) simp

lemma drain_Some:
  "indexOf NL buffer = Some n \<Longrightarrow>
   drain parse ow buffer st =
     (case process_line parse ow (trim (take n buffer)) st of
        Inl e \<Rightarrow> Inl e
      | Inr st' \<Rightarrow> drain parse ow (drop (n + 1) buffer) st')"
  by (subst drain.simps) simp

lemma drain_no_newline: "NL \<notin> set r \<Longrightarrow> drain parse ow r st = Inr (r, st)"
  by (simp add: drain_None indexOf_None)

lemma drain_line:
  "NL \<notin> set l \<Longrightarrow>
   drain parse ow (l @ NL # rest) st =
     (case process_line parse ow (trim l) st of
        Inl e \<Rightarrow> Inl e
      | Inr st' \<Rightarrow> drain parse ow rest st')"
  by (simp add: drain_Some [OF indexOf_first] split: sum.splits)

lemma drain_text:
  "list_all (\<lambda>l. NL \<notin> set l) ls \<Longrightarrow> NL \<notin> set r \<Longrightarrow>
   drain parse ow (text_of ls r) st =
     (case process_lines parse ow ls st of
        Inl e \<Rightarrow> Inl e
      | Inr st' \<Rightarrow> Inr (r, st'))"
proof (induction ls arbitrary: st)
  case Nil
  then show ?case by (simp add: text_of_def drain_no_newline)
next
  case (Cons l ls)
  then have "drain parse ow (l @ NL # text_of ls r) st =
     (case process_line parse ow (trim l) st of
        Inl e \<Rightarrow> Inl e
      | Inr st' \<Rightarrow> drain parse ow (text_of ls r) st')"
    by (intro drain_line) simp
  with Cons show ?case
    by (simp add: text_of_def split: sum.splits)
qed

lemma drain_rest:
  "drain parse ow s st = Inr (r, st') \<Longrightarrow> NL \<notin> set r"
proof (induction parse ow s st rule: drain.induct)
  case (1 parse ow buffer st)
  show ?case
  proof (cases "indexOf NL buffer")
    case None
    with "1.prems" show ?thesis
      by (simp add: drain_None indexOf_None_iff)
  next
    case (Some n)
    with "1.prems" "1.IH" show ?thesis
      by (auto simp: drain_Some [OF Some] split: sum.splits)
  qed
qed

lemma drain_append:
  "drain parse ow (a @ b) st =
     (case drain parse ow a st of
        Inl e \<Rightarrow> Inl e
      | Inr (a', st') \<Rightarrow> drain parse ow (a' @ b) st')"
proof (induction parse ow a st rule: drain.induct)
  case (1 parse ow buffer st)
  show ?case
  proof (cases "indexOf NL buffer")
    case None
    then show ?thesis
      by (simp add: drain_None)
  next
    case (Some n)
    then have n: "n < length buffer" by (rule indexOf_less)
    from Some have ab: "indexOf NL (buffer @ b) = Some n" by (rule indexOf_append)
    show ?thesis
    proof (cases "process_line parse ow (trim (take n buffer)) st")
      case (Inl e)
      with n show ?thesis
        by (simp add: drain_Some [OF Some] drain_Some [OF ab])
    next
      case (Inr st1)
      with n "1.IH" [OF Some Inr] show ?thesis
        by (simp add: drain_Some [OF Some] drain_Some [OF ab])
    qed
  qed
qed

lemma read_loop_concat:
  "NL \<notin> set buffer \<Longrightarrow>
   read_loop parse ow chunks buffer st = drain parse ow (buffer @ concat chunks) st"
proof (induction chunks arbitrary: buffer st)
  case Nil
  then show ?case by (simp add: drain_no_newline)
next
  case (Cons c cs)
  show ?case
  proof (cases "drain parse ow (buffer @ c) st")
    case (Inl e)
    then show ?thesis
      using drain_append [of parse ow "buffer @ c" "concat cs" st] by simp
  next
    case (Inr x)
    obtain b' st' where x: "x = (b', st')" by (cases x)
    with Inr have "NL \<notin> set b'" by (auto dest: drain_rest)
    with Cons.IH have "read_loop parse ow cs b' st' = drain parse ow (b' @ concat cs) st'" .
    with Inr x show ?thesis
      using drain_append [of parse ow "buffer @ c" "concat cs" st] by simp
  qed
qed


lemma run_body_lines:
  assumes "concat chunks = text_of ls r" "well_split ls r"
  shows "run_body parse ow query chunks =
     (case process_lines parse ow ls (log ReadingProducts initial) of
        Inl e \<Rightarrow> Inl e
      | Inr st \<Rightarrow> finish query st)"
  using assms
  by (simp add: run_body_def read_loop_concat drain_text well_split_def split: sum.splits)

section \<open>The unterminated last line and the blank lines\<close>

lemma process_line_blank: "process_line parse ow [] st = Inr st"
  by (simp add: process_line_def)

lemma process_lines_filter_blank:
  "process_lines parse ow (filter (\<lambda>l. \<not> is_blank l) ls) st = process_lines parse ow ls st"
proof (induction ls arbitrary: st)
  case Nil
  show ?case by simp
next
  case (Cons l ls)
  show ?case
  proof (cases "is_blank l")
    case True
    then have "process_line parse ow (trim l) st = Inr st"
      by (simp add: is_blank_def process_line_blank)
    with True Cons show ?thesis by simp
  next
    case False
    with Cons show ?thesis by (simp split: sum.splits)
  qed
qed

lemma process_lines_parser_cong:
  "\<forall>l\<in>set ls. parse' (trim l) = parse (trim l) \<Longrightarrow>
   process_lines parse' ow ls st = process_lines parse ow ls st"
proof (induction ls arbitrary: st)
  case Nil
  show ?case by simp
next
  case (Cons l ls)
  then have "process_line parse' ow (trim l) st = process_line parse ow (trim l) st"
    by (simp add: process_line_def)
  with Cons show ?case by (simp split: sum.splits)
qed

lemma well_split_Nil: "well_split ls r \<Longrightarrow> well_split ls []"
  by (simp add: well_split_def)

lemma well_split_filter: "well_split ls r \<Longrightarrow> well_split (filter P ls) []"
  by (induction ls) (auto simp: well_split_def)

text \<open>
  Claim C9. When the input ends with a part \<open>r\<close> that no newline terminates, the run is
  the run on the input without \<open>r\<close>: the record on the unterminated last line is not
  generated, not counted as skipped and not reported as malformed. The run does not depend
  on what the parser says about any string but the trimmed complete lines, so \<open>r\<close> is
  never parsed. Blank lines change nothing either: the run is the run on the input
  without them.
\<close>

theorem unterminated_last_line_dropped:
  assumes "concat chunks = text_of ls r" and "well_split ls r"
  shows "run_generate parse ow query chunks = run_generate parse ow query [text_of ls []]
    \<and> run_generate parse ow query chunks =
        run_generate parse ow query [text_of (filter (\<lambda>l. \<not> is_blank l) ls) []]
    \<and> (\<forall>parse'. (\<forall>l\<in>set ls. parse' (trim l) = parse (trim l)) \<longrightarrow>
          run_generate parse' ow query chunks = run_generate parse ow query chunks)"
proof -
  have a: "run_body p ow query chunks =
     (case process_lines p ow ls (log ReadingProducts initial) of
        Inl e \<Rightarrow> Inl e
      | Inr st \<Rightarrow> finish query st)" for p
    using assms by (rule run_body_lines)
  have b: "run_body parse ow query [text_of ls []] =
     (case process_lines parse ow ls (log ReadingProducts initial) of
        Inl e \<Rightarrow> Inl e
      | Inr st \<Rightarrow> finish query st)"
    using assms(2) by (intro run_body_lines [of "[text_of ls []]" ls "[]"]) (simp_all add: well_split_Nil)
  have c: "run_body parse ow query [text_of (filter (\<lambda>l. \<not> is_blank l) ls) []] =
     (case process_lines parse ow (filter (\<lambda>l. \<not> is_blank l) ls) (log ReadingProducts initial) of
        Inl e \<Rightarrow> Inl e
      | Inr st \<Rightarrow> finish query st)"
    using assms(2)
    by (intro run_body_lines [of "[text_of (filter (\<lambda>l. \<not> is_blank l) ls) []]" _ "[]"])
      (simp_all add: well_split_filter)
  have 1: "run_generate parse ow query chunks = run_generate parse ow query [text_of ls []]"
    by (simp only: run_generate_def a b)
  have 2: "run_generate parse ow query chunks =
        run_generate parse ow query [text_of (filter (\<lambda>l. \<not> is_blank l) ls) []]"
    by (simp only: run_generate_def a c process_lines_filter_blank)
  have 3: "run_generate parse' ow query chunks = run_generate parse ow query chunks"
    if "\<forall>l\<in>set ls. parse' (trim l) = parse (trim l)" for parse'
    using that by (simp only: run_generate_def a process_lines_parser_cong)
  from 1 2 3 show ?thesis by blast
qed

section \<open>The batches the read loop dispatches\<close>

lemma batches_of_Nil: "batches_of n [] = []"
  by (simp add: batches_of.simps)









section \<open>Settling the batches\<close>

lemma lines_of_Nil: "lines_of [] ds = []"
  by (simp add: lines_of_def)

lemma lines_of_Cons: "lines_of (p # ps) (d # ds) = out_line_of p d # lines_of ps ds"
proof -
  have "[0..<Suc (length ps)] = 0 # map Suc [0..<length ps]"
    by (simp add: upt_conv_Cons map_Suc_upt del: upt_Suc)
  then show ?thesis
    by (simp add: lines_of_def comp_def del: upt_Suc)
qed

lemma length_lines_of: "length (lines_of b ds) = length b"
  by (simp add: lines_of_def)


lemma emit_ok:
  "length ps \<le> length ds \<Longrightarrow>
   emit ps ds st = Inr (st\<lparr>stdout := stdout st @ lines_of ps ds\<rparr>)"
proof (induction ps ds st rule: emit.induct)
  case (1 ds st)
  show ?case by (simp add: lines_of_Nil)
next
  case (2 p ps st)
  then show ?case by simp
next
  case (3 p ps d ds st)
  then show ?case by (simp add: lines_of_Cons)
qed



lemma processBatch_ok:
  assumes "generateBatch query b = Inr g" and "length b \<le> length (descriptions g)"
  shows "processBatch query b st =
     Inr (st\<lparr>totalCost := totalCost st + (case cost g of None \<Rightarrow> 0 | Some c \<Rightarrow> c),
             totalInput := totalInput st + tokens_or_zero (tokens g) input_tokens,
             totalOutput := totalOutput st + tokens_or_zero (tokens g) output_tokens,
             stdout := stdout st @ lines_of b (descriptions g),
             completed := completed st + length b,
             stderr := stderr st @ [Progress (completed st + length b) (total st)]\<rparr>)"
  using assms by (simp add: processBatch_def Let_def emit_ok log_def)




section \<open>The end of the run\<close>


lemma batches_of_sizes:
  "0 < n \<Longrightarrow> b \<in> set (batches_of n xs) \<Longrightarrow> 0 < length b \<and> length b \<le> n"
proof (induction n xs rule: batches_of.induct)
  case (1 n xs)
  show ?case
  proof (cases "xs = []")
    case True
    with "1.prems" show ?thesis by (simp add: batches_of_Nil)
  next
    case False
    from "1.prems"(2) have "b \<in> set (take n xs # batches_of n (drop n xs))"
      using False "1.prems"(1) by (subst (asm) batches_of.simps) simp
    then consider "b = take n xs" | "b \<in> set (batches_of n (drop n xs))" by auto
    then show ?thesis
    proof cases
      case 1
      with False \<open>0 < n\<close> show ?thesis by simp
    next
      case 2
      with "1.IH" False "1.prems"(1) show ?thesis by simp
    qed
  qed
qed




section \<open>The batcher\<close>




section \<open>The scenario of 25 records\<close>

lemma example_parse_d: "example_parse (CHR ''d'' # n) = Inr (described_product\<lparr>p_id := n\<rparr>)"
  by (simp add: example_parse_def)

lemma example_parse_e:
  "example_parse (CHR ''e'' # n) = Inr (described_product\<lparr>p_id := n, p_description := None\<rparr>)"
  by (simp add: example_parse_def)

lemma skip_described: "\<not> needsGeneration False (described_product\<lparr>p_id := n\<rparr>)"
  by (simp add: needsGeneration_def described_product_def example_product_def has_text_def
      build_mf_def assign_def or_empty_def trim_def is_ws_def)

lemma keep_undescribed:
  "needsGeneration ow (described_product\<lparr>p_id := n, p_description := None\<rparr>)"
  by (simp add: needsGeneration_def has_text_def)

lemma generateBatch_example:
  "generateBatch example_sdk b =
     Inr \<lparr> descriptions = map numbered [0..<length b], cost = Some (1 / 100),
           tokens = Some \<lparr> input_tokens = Some 10, output_tokens = Some 5 \<rparr> \<rparr>"
  by (simp add: generateBatch_def example_sdk_def request_of_def outputSchema_def)







section \<open>An input with an unterminated last line\<close>

lemma partial_input:
  "concat partial_chunks = text_of partial_lines ''e3'' \<and> well_split partial_lines ''e3''"
  by (simp add: partial_chunks_def partial_lines_def text_of_def well_split_def NL_def)

lemma run_two_lines:
  "run_generate example_parse False example_sdk [text_of [''e1'', ''d2''] []] =
     \<lparr> out_lines = [out_line_of (described_product\<lparr>p_id := ''1'', p_description := None\<rparr>) (numbered 0)],
       err_lines = [ReadingProducts, StartingBatch 1, ToGenerate 1 1, Progress 1 1,
                    CostLine (1 / 100) 10 5, SuccessLine 1],
       dispatched = [[described_product\<lparr>p_id := ''1'', p_description := None\<rparr>]],
       exit_code = 0 \<rparr>"
proof -
  have w: "well_split [''e1'', ''d2''] []"
    by (simp add: well_split_def NL_def)
  have t: "trim ''e1'' = ''e1''" "trim ''d2'' = ''d2''"
    by (simp_all add: trim_def is_ws_def)
  have "run_body example_parse False example_sdk [text_of [''e1'', ''d2''] []] =
     (case process_lines example_parse False [''e1'', ''d2''] (log ReadingProducts initial) of
        Inl e \<Rightarrow> Inl e
      | Inr st \<Rightarrow> finish example_sdk st)"
    using w by (intro run_body_lines [of _ _ "[]"]) simp_all
  then show ?thesis
    by (simp add: run_generate_def t process_line_def Let_def example_parse_d example_parse_e
        skip_described keep_undescribed BATCH_SIZE_def finish_def dispatch_def log_def
        initial_def processBatch_def generateBatch_example tokens_or_zero_def)
qed

theorem unterminated_last_line_dropped_witness:
  "concat partial_chunks = text_of partial_lines ''e3'' \<and> well_split partial_lines ''e3''
   \<and> example_parse ''e3'' = Inr (described_product\<lparr>p_id := ''3'', p_description := None\<rparr>)
   \<and> run_generate example_parse False example_sdk partial_chunks =
       run_generate example_parse False example_sdk [text_of [''e1'', ''d2''] []]
   \<and> map o_id (out_lines (run_generate example_parse False example_sdk partial_chunks)) = [''1'']
   \<and> err_lines (run_generate example_parse False example_sdk partial_chunks) =
       [ReadingProducts, StartingBatch 1, ToGenerate 1 1, Progress 1 1,
        CostLine (1 / 100) 10 5, SuccessLine 1]
   \<and> run_generate (\<lambda>l. if l = ''e3'' then Inl ''malformed'' else example_parse l) False
         example_sdk partial_chunks =
       run_generate example_parse False example_sdk partial_chunks"
proof -
  from partial_input have i1: "concat partial_chunks = text_of partial_lines ''e3''"
    and i2: "well_split partial_lines ''e3''" by blast+
  note t = unterminated_last_line_dropped [OF i1 i2, of example_parse False example_sdk]
  have f: "filter (\<lambda>l. \<not> is_blank l) partial_lines = [''e1'', ''d2'']"
    by (simp add: partial_lines_def is_blank_def trim_def is_ws_def)
  from t have e: "run_generate example_parse False example_sdk partial_chunks =
       run_generate example_parse False example_sdk [text_of [''e1'', ''d2''] []]"
    unfolding f by blast
  from t have q: "\<forall>parse'. (\<forall>l\<in>set partial_lines. parse' (trim l) = example_parse (trim l)) \<longrightarrow>
          run_generate parse' False example_sdk partial_chunks =
          run_generate example_parse False example_sdk partial_chunks"
    by blast
  have p: "run_generate (\<lambda>l. if l = ''e3'' then Inl ''malformed'' else example_parse l) False
         example_sdk partial_chunks =
       run_generate example_parse False example_sdk partial_chunks"
    by (rule q [rule_format]) (auto simp add: partial_lines_def trim_def is_ws_def)
  have o: "map o_id (out_lines (run_generate example_parse False example_sdk partial_chunks)) = [''1'']"
    by (simp add: e run_two_lines out_line_of_def)
  have l: "err_lines (run_generate example_parse False example_sdk partial_chunks) =
       [ReadingProducts, StartingBatch 1, ToGenerate 1 1, Progress 1 1,
        CostLine (1 / 100) 10 5, SuccessLine 1]"
    by (simp add: e run_two_lines)
  from i1 i2 e p o l example_parse_e [of "''3''"] show ?thesis by blast
qed

section \<open>One line per record of a batch\<close>

text \<open>
  Claim C2, as the code has it. The request of a batch of \<open>N\<close> records asks for exactly
  \<open>N\<close> entries (\<open>minItems = maxItems = N\<close>). When the array that comes back has at least
  \<open>N\<close> entries, \<open>processBatch\<close> prints exactly \<open>N\<close> lines, and line \<open>i\<close> carries the id,
  handle and title of record \<open>i\<close> with the description pair of entry \<open>i\<close>. The script
  itself checks neither the length nor the order of the array: entries beyond the
  \<open>N\<close>-th are ignored.
\<close>

theorem processBatch_pairs_by_position:
  assumes "generateBatch query b = Inr g" and "length b \<le> length (descriptions g)"
  shows "outputFormat (request_of b) = \<lparr> minItems = length b, maxItems = length b \<rparr>
    \<and> (\<exists>st'. processBatch query b st = Inr st'
          \<and> stdout st' = stdout st @ lines_of b (descriptions g)
          \<and> completed st' = completed st + length b)
    \<and> length (lines_of b (descriptions g)) = length b
    \<and> (\<forall>i<length b.
          o_id (lines_of b (descriptions g) ! i) = p_id (b ! i)
        \<and> o_handle (lines_of b (descriptions g) ! i) = p_handle (b ! i)
        \<and> o_title (lines_of b (descriptions g) ! i) = p_title (b ! i)
        \<and> o_description (lines_of b (descriptions g) ! i) = d_description (descriptions g ! i)
        \<and> o_longDescription (lines_of b (descriptions g) ! i) = d_longDescription (descriptions g ! i))"
proof -
  have 1: "outputFormat (request_of b) = \<lparr> minItems = length b, maxItems = length b \<rparr>"
    by (simp add: request_of_def outputSchema_def)
  have 2: "\<exists>st'. processBatch query b st = Inr st'
          \<and> stdout st' = stdout st @ lines_of b (descriptions g)
          \<and> completed st' = completed st + length b"
    by (simp add: processBatch_ok [OF assms])
  have 3: "length (lines_of b (descriptions g)) = length b"
    by (rule length_lines_of)
  have 4: "o_id (lines_of b (descriptions g) ! i) = p_id (b ! i)
        \<and> o_handle (lines_of b (descriptions g) ! i) = p_handle (b ! i)
        \<and> o_title (lines_of b (descriptions g) ! i) = p_title (b ! i)
        \<and> o_description (lines_of b (descriptions g) ! i) = d_description (descriptions g ! i)
        \<and> o_longDescription (lines_of b (descriptions g) ! i) = d_longDescription (descriptions g ! i)"
    if "i < length b" for i
    using that by (simp add: lines_of_def out_line_of_def)
  from 1 2 3 4 show ?thesis by blast
qed

lemma generateBatch_surplus:
  "generateBatch surplus_sdk b =
     Inr \<lparr> descriptions = map numbered [0..<length b + 1], cost = None, tokens = None \<rparr>"
  by (simp add: generateBatch_def surplus_sdk_def request_of_def outputSchema_def)

lemma run_one_line:
  assumes "\<And>b. generateBatch query b = Inr \<lparr> descriptions = d b, cost = None, tokens = None \<rparr>"
    and "d [described_product\<lparr>p_id := ''1'', p_description := None\<rparr>] = x # xs"
  shows "run_generate example_parse False query [''e1'' @ [NL]] =
     \<lparr> out_lines = [out_line_of (described_product\<lparr>p_id := ''1'', p_description := None\<rparr>) x],
       err_lines = [ReadingProducts, StartingBatch 1, ToGenerate 1 0, Progress 1 1,
                    CostLine 0 0 0, SuccessLine 1],
       dispatched = [[described_product\<lparr>p_id := ''1'', p_description := None\<rparr>]],
       exit_code = 0 \<rparr>"
proof -
  have w: "well_split [''e1''] []"
    by (simp add: well_split_def NL_def)
  have t: "trim ''e1'' = ''e1''"
    by (simp_all add: trim_def is_ws_def)
  have "run_body example_parse False query [''e1'' @ [NL]] =
     (case process_lines example_parse False [''e1''] (log ReadingProducts initial) of
        Inl e \<Rightarrow> Inl e
      | Inr st \<Rightarrow> finish query st)"
    using w by (intro run_body_lines [of _ _ "[]"]) (simp_all add: text_of_def)
  then show ?thesis
    by (simp add: run_generate_def t process_line_def Let_def example_parse_e
        keep_undescribed BATCH_SIZE_def finish_def dispatch_def log_def
        initial_def processBatch_def assms tokens_or_zero_def)
qed

text \<open>
  Against claim C2 as stated: a batch of one record whose answer has two entries is not
  a failure of the run. The run prints the line of the first entry, prints no error and
  exits with 0.
\<close>

theorem surplus_output_tolerated:
  "dispatched (run_generate example_parse False surplus_sdk [''e1'' @ [NL]]) =
     [[described_product\<lparr>p_id := ''1'', p_description := None\<rparr>]]
   \<and> generateBatch surplus_sdk [described_product\<lparr>p_id := ''1'', p_description := None\<rparr>] =
       Inr \<lparr> descriptions = [numbered 0, numbered 1], cost = None, tokens = None \<rparr>
   \<and> out_lines (run_generate example_parse False surplus_sdk [''e1'' @ [NL]]) =
       [out_line_of (described_product\<lparr>p_id := ''1'', p_description := None\<rparr>) (numbered 0)]
   \<and> filter is_error (err_lines (run_generate example_parse False surplus_sdk [''e1'' @ [NL]])) = []
   \<and> exit_code (run_generate example_parse False surplus_sdk [''e1'' @ [NL]]) = 0"
proof -
  have "run_generate example_parse False surplus_sdk [''e1'' @ [NL]] =
     \<lparr> out_lines = [out_line_of (described_product\<lparr>p_id := ''1'', p_description := None\<rparr>) (numbered 0)],
       err_lines = [ReadingProducts, StartingBatch 1, ToGenerate 1 0, Progress 1 1,
                    CostLine 0 0 0, SuccessLine 1],
       dispatched = [[described_product\<lparr>p_id := ''1'', p_description := None\<rparr>]],
       exit_code = 0 \<rparr>"
    by (rule run_one_line [where d = "\<lambda>b. map numbered [0..<length b + 1]" and xs = "[numbered 1]"])
      (simp_all add: generateBatch_surplus upt_rec)
  then show ?thesis
    by (simp add: generateBatch_surplus upt_rec)
qed

theorem processBatch_pairs_by_position_witness:
  "generateBatch surplus_sdk [example_product, described_product] =
     Inr \<lparr> descriptions = [numbered 0, numbered 1, numbered 2], cost = None, tokens = None \<rparr>
   \<and> outputFormat (request_of [example_product, described_product]) = \<lparr> minItems = 2, maxItems = 2 \<rparr>
   \<and> (\<exists>st'. processBatch surplus_sdk [example_product, described_product] initial = Inr st'
         \<and> stdout st' =
             [\<lparr> o_id = ''gid://shopify/Product/1'', o_handle = ''shirt'', o_title = ''Shirt'',
                 o_description = ''D0'', o_longDescription = ''L0'' \<rparr>,
              \<lparr> o_id = ''gid://shopify/Product/1'', o_handle = ''shirt'', o_title = ''Shirt'',
                 o_description = ''D1'', o_longDescription = ''L1'' \<rparr>]
         \<and> completed st' = 2)"
proof -
  have g: "generateBatch surplus_sdk [example_product, described_product] =
     Inr \<lparr> descriptions = [numbered 0, numbered 1, numbered 2], cost = None, tokens = None \<rparr>"
    by (simp add: generateBatch_surplus upt_rec numeral_2_eq_2)
  have l: "length [example_product, described_product]
      \<le> length (descriptions \<lparr> descriptions = [numbered 0, numbered 1, numbered 2], cost = None, tokens = None \<rparr>)"
    by simp
  have x: "lines_of [example_product, described_product] [numbered 0, numbered 1, numbered 2] =
             [\<lparr> o_id = ''gid://shopify/Product/1'', o_handle = ''shirt'', o_title = ''Shirt'',
                 o_description = ''D0'', o_longDescription = ''L0'' \<rparr>,
              \<lparr> o_id = ''gid://shopify/Product/1'', o_handle = ''shirt'', o_title = ''Shirt'',
                 o_description = ''D1'', o_longDescription = ''L1'' \<rparr>]"
    by (simp add: lines_of_Cons lines_of_Nil out_line_of_def example_product_def
        described_product_def numbered_def show_nat.simps digit_char_def)
  have f: "outputFormat (request_of [example_product, described_product]) = \<lparr> minItems = 2, maxItems = 2 \<rparr>"
    by (simp add: request_of_def outputSchema_def)
  note t = processBatch_pairs_by_position [OF g l, of initial]
  from t obtain st' where s: "processBatch surplus_sdk [example_product, described_product] initial = Inr st'"
    "stdout st' = stdout initial
       @ lines_of [example_product, described_product]
           (descriptions \<lparr> descriptions = [numbered 0, numbered 1, numbered 2], cost = None, tokens = None \<rparr>)"
    "completed st' = completed initial + length [example_product, described_product]"
    by blast
  from s(2) x have o: "stdout st' =
             [\<lparr> o_id = ''gid://shopify/Product/1'', o_handle = ''shirt'', o_title = ''Shirt'',
                 o_description = ''D0'', o_longDescription = ''L0'' \<rparr>,
              \<lparr> o_id = ''gid://shopify/Product/1'', o_handle = ''shirt'', o_title = ''Shirt'',
                 o_description = ''D1'', o_longDescription = ''L1'' \<rparr>]"
    by (simp add: initial_def)
  from s(3) have c: "completed st' = 2" by (simp add: initial_def)
  from g f s(1) o c show ?thesis by blast
qed

section \<open>The paginated fetcher\<close>

lemma shopify_trace:
  "shopify fetch q vars tr =
     (tr @ fst (shopify fetch q vars []), snd (shopify fetch q vars []))"
  by (simp add: shopify_def Let_def split: sum.splits option.splits)

lemma requests_append: "requests (a @ b) = requests a @ requests b"
  by (induction a rule: requests.induct) simp_all

lemma requests_shopify: "requests (fst (shopify fetch q vars [])) = [(q, vars)]"
  by (simp add: shopify_def Let_def split: sum.splits option.splits)

lemma fetch_loop_last:
  assumes "page_at fetch q ident ex cursor = Some c" and "\<not> hasNextPage (pageInfo c)"
  shows "fetch_loop fetch q ident ex items cursor tr =
     Some (tr @ fst (shopify fetch q \<lparr> v_id = ident, v_cursor = cursor \<rparr> []),
           Inr (items @ nodes_of c))"
  using assms
  by (subst fetch_loop.simps, subst shopify_trace)
    (auto simp: page_at_def nodes_of_def split: sum.splits)

lemma fetch_loop_next:
  assumes "page_at fetch q ident ex cursor = Some c" and "hasNextPage (pageInfo c)"
  shows "fetch_loop fetch q ident ex items cursor tr =
     fetch_loop fetch q ident ex (items @ nodes_of c) (endCursor (pageInfo c))
       (tr @ fst (shopify fetch q \<lparr> v_id = ident, v_cursor = cursor \<rparr> []))"
  using assms
  by (subst fetch_loop.simps, subst shopify_trace)
    (auto simp: page_at_def nodes_of_def split: sum.splits)

lemma fetch_loop_serves:
  "serves fetch q ident ex cursor cs \<Longrightarrow>
   fetch_loop fetch q ident ex items cursor tr =
     Some (tr @ concat (map (\<lambda>c. call_events fetch q \<lparr> v_id = ident, v_cursor = c \<rparr>)
                            (cursors_of cursor cs)),
           Inr (items @ concat (map nodes_of cs)))"
proof (induction fetch q ident ex cursor cs arbitrary: items tr rule: serves.induct)
  case (1 fetch q ident ex cursor)
  then show ?case by simp
next
  case (2 fetch q ident ex cursor c)
  then have "fetch_loop fetch q ident ex items cursor tr =
     Some (tr @ fst (shopify fetch q \<lparr> v_id = ident, v_cursor = cursor \<rparr> []),
           Inr (items @ nodes_of c))"
    by (intro fetch_loop_last) simp_all
  then show ?case
    by (simp add: call_events_def cursors_of_def)
next
  case (3 fetch q ident ex cursor c c' cs)
  let ?t = "fst (shopify fetch q \<lparr> v_id = ident, v_cursor = cursor \<rparr> [])"
  from "3.prems" have s: "serves fetch q ident ex (endCursor (pageInfo c)) (c' # cs)"
    and p: "page_at fetch q ident ex cursor = Some c" and h: "hasNextPage (pageInfo c)"
    by simp_all
  note l = "3.IH" [OF s, of "items @ nodes_of c" "tr @ ?t"]
  show ?case
    using fetch_loop_next [OF p h, of items tr] l
    by (simp add: call_events_def cursors_of_def)
qed

lemma requests_calls:
  "requests (concat (map (\<lambda>c. call_events fetch q \<lparr> v_id = ident, v_cursor = c \<rparr>) cursors)) =
     map (\<lambda>c. (q, \<lparr> v_id = ident, v_cursor = c \<rparr>)) cursors"
  by (induction cursors) (simp_all add: requests_append call_events_def requests_shopify)

lemma page_at_paged:
  "page_at (paged k xs) q ident node_metafields cursor = Some (paged_page k xs cursor)"
  by (simp add: page_at_def paged_def shopify_def node_metafields_def throttled_def)

lemma nodes_of_paged_page: "nodes_of (paged_page k xs cursor) = take k (drop (offset_of cursor) xs)"
  by (simp add: nodes_of_def paged_page_def Let_def comp_def)

lemma fetch_loop_paged:
  assumes "0 < k"
  shows "\<exists>tr'. fetch_loop (paged k xs) q ident node_metafields items cursor tr =
            Some (tr @ tr', Inr (items @ drop (offset_of cursor) xs))"
proof (induction "length xs - offset_of cursor" arbitrary: cursor items tr rule: less_induct)
  case less
  let ?off = "offset_of cursor"
  let ?c = "paged_page k xs cursor"
  let ?t = "fst (shopify (paged k xs) q \<lparr> v_id = ident, v_cursor = cursor \<rparr> [])"
  note p = page_at_paged [of k xs q ident cursor]
  show ?case
  proof (cases "?off + k < length xs")
    case False
    then have h: "\<not> hasNextPage (pageInfo ?c)" by (simp add: paged_page_def Let_def)
    from False have "take k (drop ?off xs) = drop ?off xs" by simp
    with fetch_loop_last [OF p h, of items tr] show ?thesis
      by (simp add: nodes_of_paged_page)
  next
    case True
    then have h: "hasNextPage (pageInfo ?c)" by (simp add: paged_page_def Let_def)
    from True assms have len: "length (take k (drop ?off xs)) = k" by simp
    with assms have ne: "take k (drop ?off xs) \<noteq> []" by auto
    have e: "endCursor (pageInfo ?c) = Some (cursor_of (?off + k))"
      using ne len by (simp add: paged_page_def Let_def)
    have o: "offset_of (Some (cursor_of (?off + k))) = ?off + k"
      by (simp add: offset_of_def cursor_of_def)
    from True assms have "length xs - offset_of (Some (cursor_of (?off + k))) < length xs - ?off"
      unfolding o by simp
    from less [OF this, of "items @ nodes_of ?c" "tr @ ?t"] obtain tr' where
      "fetch_loop (paged k xs) q ident node_metafields (items @ nodes_of ?c)
         (Some (cursor_of (?off + k))) (tr @ ?t) =
       Some ((tr @ ?t) @ tr', Inr ((items @ nodes_of ?c) @ drop (?off + k) xs))"
      unfolding o by blast
    moreover have "take k (drop ?off xs) @ drop (?off + k) xs = drop ?off xs"
      by (metis add.commute append_take_drop_id drop_drop)
    ultimately have "fetch_loop (paged k xs) q ident node_metafields items cursor tr =
        Some (tr @ (?t @ tr'), Inr (items @ drop ?off xs))"
      using fetch_loop_next [OF p h, of items tr] e by (simp add: nodes_of_paged_page)
    then show ?thesis by blast
  qed
qed

text \<open>
  Claim C1. When the server serves the pages \<open>cs\<close> from the null cursor, fetchAllPages
  returns the items of all the pages in order, each exactly once; its requests are one per
  page: the first with the null cursor, each next one with the end cursor of the page
  before, unchanged, and none after the page that reports no next page. For the
  simulated collection of any items \<open>xs\<close> and any page size \<open>k > 0\<close>, it returns \<open>xs\<close>.
\<close>

theorem fetchAllPages_concatenates:
  "(serves fetch q ident ex None cs \<longrightarrow>
      (\<exists>tr'. fetchAllPages fetch q ident ex tr = Some (tr @ tr', Inr (concat (map nodes_of cs)))
           \<and> requests tr' =
               map (\<lambda>c. (q, \<lparr> v_id = ident, v_cursor = c \<rparr>))
                   (None # map (\<lambda>c. endCursor (pageInfo c)) (butlast cs))))
   \<and> (0 < k \<longrightarrow>
      (\<exists>tr'. fetchAllPages (paged k xs) q ident node_metafields tr = Some (tr @ tr', Inr xs)))"
proof -
  have 1: "\<exists>tr'. fetchAllPages fetch q ident ex tr = Some (tr @ tr', Inr (concat (map nodes_of cs)))
           \<and> requests tr' =
               map (\<lambda>c. (q, \<lparr> v_id = ident, v_cursor = c \<rparr>))
                   (None # map (\<lambda>c. endCursor (pageInfo c)) (butlast cs))"
    if "serves fetch q ident ex None cs"
  proof -
    let ?tr' = "concat (map (\<lambda>c. call_events fetch q \<lparr> v_id = ident, v_cursor = c \<rparr>)
                            (cursors_of None cs))"
    have "fetchAllPages fetch q ident ex tr = Some (tr @ ?tr', Inr (concat (map nodes_of cs)))"
      using fetch_loop_serves [OF that, of "[]" tr] by (simp add: fetchAllPages_def)
    moreover have "requests ?tr' = map (\<lambda>c. (q, \<lparr> v_id = ident, v_cursor = c \<rparr>))
                   (None # map (\<lambda>c. endCursor (pageInfo c)) (butlast cs))"
      by (simp only: requests_calls cursors_of_def)
    ultimately show ?thesis by blast
  qed
  have 2: "\<exists>tr'. fetchAllPages (paged k xs) q ident node_metafields tr = Some (tr @ tr', Inr xs)"
    if "0 < k"
    using fetch_loop_paged [OF that, of xs q ident "[]" None tr]
    by (simp add: fetchAllPages_def offset_of_def)
  from 1 2 show ?thesis by blast
qed

theorem fetchAllPages_concatenates_witness:
  "serves (paged 2 five_items) METAFIELDS_QUERY None node_metafields None three_pages
   \<and> map nodes_of three_pages =
       [[[(''key'', JStr ''a'')], [(''key'', JStr ''b'')]],
        [[(''key'', JStr ''c'')], [(''key'', JStr ''d'')]],
        [[(''key'', JStr ''e'')]]]
   \<and> (0::nat) < 3
   \<and> (\<exists>tr'. fetchAllPages (paged 3 five_items) MEDIA_QUERY None node_metafields [] =
               Some (tr', Inr five_items))
   \<and> (\<exists>tr'. fetchAllPages (paged 2 five_items) METAFIELDS_QUERY None node_metafields [] =
               Some (tr', Inr five_items)
          \<and> requests tr' =
              [(METAFIELDS_QUERY, \<lparr> v_id = None, v_cursor = None \<rparr>),
               (METAFIELDS_QUERY, \<lparr> v_id = None, v_cursor = Some ''cc'' \<rparr>),
               (METAFIELDS_QUERY, \<lparr> v_id = None, v_cursor = Some ''cccc'' \<rparr>)])"
proof -
  have s: "serves (paged 2 five_items) METAFIELDS_QUERY None node_metafields None three_pages"
    by (simp add: three_pages_def page_at_paged paged_page_def offset_of_def five_items_def
        cursor_of_def Let_def)
  have n: "map nodes_of three_pages =
       [[[(''key'', JStr ''a'')], [(''key'', JStr ''b'')]],
        [[(''key'', JStr ''c'')], [(''key'', JStr ''d'')]],
        [[(''key'', JStr ''e'')]]]"
    by (simp add: three_pages_def nodes_of_paged_page offset_of_def five_items_def)
  have c: "None # map (\<lambda>c. endCursor (pageInfo c)) (butlast three_pages) =
      [None, Some ''cc'', Some ''cccc'']"
    by (simp add: three_pages_def paged_page_def offset_of_def five_items_def
        cursor_of_def Let_def)
  have x: "concat (map nodes_of three_pages) = five_items"
    by (simp only: n) (simp add: five_items_def)
  from fetchAllPages_concatenates [of "paged 2 five_items" METAFIELDS_QUERY None node_metafields
      three_pages "[]" 2 five_items] s
  obtain tr' where "fetchAllPages (paged 2 five_items) METAFIELDS_QUERY None node_metafields [] =
      Some ([] @ tr', Inr (concat (map nodes_of three_pages)))"
    "requests tr' = map (\<lambda>c. (METAFIELDS_QUERY, \<lparr> v_id = None, v_cursor = c \<rparr>))
                   (None # map (\<lambda>c. endCursor (pageInfo c)) (butlast three_pages))"
    by blast
  then have "fetchAllPages (paged 2 five_items) METAFIELDS_QUERY None node_metafields [] =
               Some (tr', Inr five_items)
          \<and> requests tr' =
              [(METAFIELDS_QUERY, \<lparr> v_id = None, v_cursor = None \<rparr>),
               (METAFIELDS_QUERY, \<lparr> v_id = None, v_cursor = Some ''cc'' \<rparr>),
               (METAFIELDS_QUERY, \<lparr> v_id = None, v_cursor = Some ''cccc'' \<rparr>)]"
    by (simp only: c x) simp
  moreover from fetchAllPages_concatenates [of "paged 3 five_items" MEDIA_QUERY None node_metafields
      "[]" "[]" 3 five_items]
  have "\<exists>tr'. fetchAllPages (paged 3 five_items) MEDIA_QUERY None node_metafields [] =
               Some (tr', Inr five_items)"
    by simp
  ultimately show ?thesis using s n by simp
qed

section \<open>The throttle\<close>

lemma shopify_costed:
  assumes "costed_response fetch q vars js c ts"
  shows "shopify fetch q vars tr =
     (if currentlyAvailable ts < 100
      then (tr @ [Fetch q vars,
                  Stderr (Throttled (throttle_wait (requestedQueryCost c) (restoreRate ts))),
                  Sleep (throttle_wait (requestedQueryCost c) (restoreRate ts))],
            Inr (b_data js))
      else (tr @ [Fetch q vars], Inr (b_data js)))"
  using assms
  by (auto simp: costed_response_def shopify_def throttled_def Let_def split: sum.splits)

text \<open>
  Claim C5. After a response whose throttle status reports less than 100 points of
  capacity, \<open>shopify\<close> logs and sleeps \<open>ceil(requestedQueryCost / restoreRate) * 1000\<close>
  milliseconds before it returns (when the restore rate is 0 the quotient, and so the
  wait handed to the timer, is not a finite number); for 50 points left, a cost of 10 and
  a restore rate of 5 the wait is 2000. With 100 points or more there is no sleep. The
  events of fetchAllPages are the events of its calls of \<open>shopify\<close>, one call after the
  other, so the sleep of a response comes before the next request.
\<close>

theorem throttle_wait_inserted:
  "(costed_response fetch q vars js c ts \<and> currentlyAvailable ts < 100 \<and> restoreRate ts \<noteq> 0 \<longrightarrow>
      shopify fetch q vars tr =
        (tr @ [Fetch q vars,
               Stderr (Throttled (Finite (\<lceil>(of_int (requestedQueryCost c) :: rat) / of_int (restoreRate ts)\<rceil> * 1000))),
               Sleep (Finite (\<lceil>(of_int (requestedQueryCost c) :: rat) / of_int (restoreRate ts)\<rceil> * 1000))],
         Inr (b_data js)))
   \<and> (costed_response fetch q vars js c ts \<and> currentlyAvailable ts = 50
        \<and> requestedQueryCost c = 10 \<and> restoreRate ts = 5 \<longrightarrow>
      shopify fetch q vars tr =
        (tr @ [Fetch q vars, Stderr (Throttled (Finite 2000)), Sleep (Finite 2000)],
         Inr (b_data js)))
   \<and> (costed_response fetch q vars js c ts \<and> currentlyAvailable ts < 100 \<and> restoreRate ts = 0 \<longrightarrow>
      shopify fetch q vars tr =
        (tr @ [Fetch q vars,
               Stderr (Throttled (if requestedQueryCost c > 0 then PosInfinity
                                  else if requestedQueryCost c < 0 then NegInfinity else NaN)),
               Sleep (if requestedQueryCost c > 0 then PosInfinity
                      else if requestedQueryCost c < 0 then NegInfinity else NaN)],
         Inr (b_data js)))
   \<and> (costed_response fetch q vars js c ts \<and> 100 \<le> currentlyAvailable ts \<longrightarrow>
      shopify fetch q vars tr = (tr @ [Fetch q vars], Inr (b_data js)))
   \<and> (serves fetch q ident ex None cs \<longrightarrow>
      fetchAllPages fetch q ident ex tr =
        Some (tr @ concat (map (\<lambda>cursor. call_events fetch q \<lparr> v_id = ident, v_cursor = cursor \<rparr>)
                               (cursors_of None cs)),
              Inr (concat (map nodes_of cs))))"
proof -
  have 1: "shopify fetch q vars tr =
        (tr @ [Fetch q vars,
               Stderr (Throttled (Finite (\<lceil>(of_int (requestedQueryCost c) :: rat) / of_int (restoreRate ts)\<rceil> * 1000))),
               Sleep (Finite (\<lceil>(of_int (requestedQueryCost c) :: rat) / of_int (restoreRate ts)\<rceil> * 1000))],
         Inr (b_data js))"
    if "costed_response fetch q vars js c ts" "currentlyAvailable ts < 100" "restoreRate ts \<noteq> 0"
    using that by (simp add: shopify_costed throttle_wait_def)
  have 2: "shopify fetch q vars tr =
        (tr @ [Fetch q vars, Stderr (Throttled (Finite 2000)), Sleep (Finite 2000)],
         Inr (b_data js))"
    if "costed_response fetch q vars js c ts" "currentlyAvailable ts = 50"
      "requestedQueryCost c = 10" "restoreRate ts = 5"
    using that by (simp add: shopify_costed throttle_wait_def)
  have 5: "shopify fetch q vars tr =
        (tr @ [Fetch q vars,
               Stderr (Throttled (if requestedQueryCost c > 0 then PosInfinity
                                  else if requestedQueryCost c < 0 then NegInfinity else NaN)),
               Sleep (if requestedQueryCost c > 0 then PosInfinity
                      else if requestedQueryCost c < 0 then NegInfinity else NaN)],
         Inr (b_data js))"
    if "costed_response fetch q vars js c ts" "currentlyAvailable ts < 100" "restoreRate ts = 0"
    using that by (simp add: shopify_costed throttle_wait_def)
  have 3: "shopify fetch q vars tr = (tr @ [Fetch q vars], Inr (b_data js))"
    if "costed_response fetch q vars js c ts" "100 \<le> currentlyAvailable ts"
    using that by (simp add: shopify_costed)
  have 4: "fetchAllPages fetch q ident ex tr =
        Some (tr @ concat (map (\<lambda>cursor. call_events fetch q \<lparr> v_id = ident, v_cursor = cursor \<rparr>)
                               (cursors_of None cs)),
              Inr (concat (map nodes_of cs)))"
    if "serves fetch q ident ex None cs"
    using fetch_loop_serves [OF that, of "[]" tr] by (simp add: fetchAllPages_def)
  from 1 2 3 4 5 show ?thesis by blast
qed


lemma page_at_costing:
  "page_at (costing c k xs) q ident node_metafields cursor = Some (paged_page k xs cursor)"
  by (simp add: page_at_def costing_def shopify_def node_metafields_def throttled_def Let_def
      split: option.splits)

theorem throttle_wait_inserted_witness:
  "costed_response (costing low_capacity 3 five_items) MEDIA_QUERY \<lparr> v_id = None, v_cursor = None \<rparr>
     \<lparr> b_errors = None, b_cost = Some low_capacity,
       b_data = NodeData (Some (paged_page 3 five_items None)) \<rparr>
     low_capacity \<lparr> currentlyAvailable = 50, restoreRate = 5 \<rparr>
   \<and> fst (shopify (costing low_capacity 3 five_items) MEDIA_QUERY \<lparr> v_id = None, v_cursor = None \<rparr> []) =
       [Fetch MEDIA_QUERY \<lparr> v_id = None, v_cursor = None \<rparr>,
        Stderr (Throttled (Finite 2000)), Sleep (Finite 2000)]
   \<and> costed_response (costing floor_capacity 3 five_items) MEDIA_QUERY \<lparr> v_id = None, v_cursor = None \<rparr>
     \<lparr> b_errors = None, b_cost = Some floor_capacity,
       b_data = NodeData (Some (paged_page 3 five_items None)) \<rparr>
     floor_capacity \<lparr> currentlyAvailable = 100, restoreRate = 5 \<rparr>
   \<and> fst (shopify (costing floor_capacity 3 five_items) MEDIA_QUERY \<lparr> v_id = None, v_cursor = None \<rparr> []) =
       [Fetch MEDIA_QUERY \<lparr> v_id = None, v_cursor = None \<rparr>]
   \<and> costed_response (costing stalled_capacity 3 five_items) MEDIA_QUERY \<lparr> v_id = None, v_cursor = None \<rparr>
     \<lparr> b_errors = None, b_cost = Some stalled_capacity,
       b_data = NodeData (Some (paged_page 3 five_items None)) \<rparr>
     stalled_capacity \<lparr> currentlyAvailable = 50, restoreRate = 0 \<rparr>
   \<and> fst (shopify (costing stalled_capacity 3 five_items) MEDIA_QUERY \<lparr> v_id = None, v_cursor = None \<rparr> []) =
       [Fetch MEDIA_QUERY \<lparr> v_id = None, v_cursor = None \<rparr>,
        Stderr (Throttled PosInfinity), Sleep PosInfinity]
   \<and> serves (costing low_capacity 3 five_items) MEDIA_QUERY None node_metafields None
       [paged_page 3 five_items None, paged_page 3 five_items (Some ''ccc'')]
   \<and> fetchAllPages (costing low_capacity 3 five_items) MEDIA_QUERY None node_metafields [] =
       Some ([Fetch MEDIA_QUERY \<lparr> v_id = None, v_cursor = None \<rparr>,
              Stderr (Throttled (Finite 2000)), Sleep (Finite 2000),
              Fetch MEDIA_QUERY \<lparr> v_id = None, v_cursor = Some ''ccc'' \<rparr>,
              Stderr (Throttled (Finite 2000)), Sleep (Finite 2000)],
             Inr five_items)"
proof -
  let ?v = "\<lparr> v_id = None, v_cursor = None \<rparr>"
  let ?lo = "\<lparr> b_errors = None, b_cost = Some low_capacity,
       b_data = NodeData (Some (paged_page 3 five_items None)) \<rparr>"
  let ?hi = "\<lparr> b_errors = None, b_cost = Some floor_capacity,
       b_data = NodeData (Some (paged_page 3 five_items None)) \<rparr>"
  let ?cs = "[paged_page 3 five_items None, paged_page 3 five_items (Some ''ccc'')]"
  have a: "costed_response (costing low_capacity 3 five_items) MEDIA_QUERY ?v ?lo
      low_capacity \<lparr> currentlyAvailable = 50, restoreRate = 5 \<rparr>"
    by (simp add: costed_response_def costing_def low_capacity_def)
  have b: "costed_response (costing floor_capacity 3 five_items) MEDIA_QUERY ?v ?hi
      floor_capacity \<lparr> currentlyAvailable = 100, restoreRate = 5 \<rparr>"
    by (simp add: costed_response_def costing_def floor_capacity_def)
  let ?st = "\<lparr> b_errors = None, b_cost = Some stalled_capacity,
       b_data = NodeData (Some (paged_page 3 five_items None)) \<rparr>"
  have z: "costed_response (costing stalled_capacity 3 five_items) MEDIA_QUERY ?v ?st
      stalled_capacity \<lparr> currentlyAvailable = 50, restoreRate = 0 \<rparr>"
    by (simp add: costed_response_def costing_def stalled_capacity_def)
  note t3 = throttle_wait_inserted [of "costing stalled_capacity 3 five_items" MEDIA_QUERY ?v ?st
      stalled_capacity "\<lparr> currentlyAvailable = 50, restoreRate = 0 \<rparr>" "[]" None node_metafields ?cs]
  from t3 z have c0: "shopify (costing stalled_capacity 3 five_items) MEDIA_QUERY ?v [] =
      ([] @ [Fetch MEDIA_QUERY ?v, Stderr (Throttled PosInfinity), Sleep PosInfinity],
       Inr (b_data ?st))"
    by (simp add: stalled_capacity_def)
  have s: "serves (costing low_capacity 3 five_items) MEDIA_QUERY None node_metafields None ?cs"
    by (simp add: page_at_costing paged_page_def offset_of_def five_items_def
        cursor_of_def Let_def)
  note t1 = throttle_wait_inserted [of "costing low_capacity 3 five_items" MEDIA_QUERY ?v ?lo
      low_capacity "\<lparr> currentlyAvailable = 50, restoreRate = 5 \<rparr>" "[]" None node_metafields ?cs]
  note t2 = throttle_wait_inserted [of "costing floor_capacity 3 five_items" MEDIA_QUERY ?v ?hi
      floor_capacity "\<lparr> currentlyAvailable = 100, restoreRate = 5 \<rparr>" "[]" None node_metafields ?cs]
  from t1 a have c1: "shopify (costing low_capacity 3 five_items) MEDIA_QUERY ?v [] =
      ([] @ [Fetch MEDIA_QUERY ?v, Stderr (Throttled (Finite 2000)), Sleep (Finite 2000)],
       Inr (b_data ?lo))"
    by (simp add: low_capacity_def)
  from t2 b have c2: "shopify (costing floor_capacity 3 five_items) MEDIA_QUERY ?v [] =
      ([] @ [Fetch MEDIA_QUERY ?v], Inr (b_data ?hi))"
    by simp
  from t1 s have c3: "fetchAllPages (costing low_capacity 3 five_items) MEDIA_QUERY None node_metafields [] =
      Some ([] @ concat (map (\<lambda>cursor. call_events (costing low_capacity 3 five_items) MEDIA_QUERY
                                        \<lparr> v_id = None, v_cursor = cursor \<rparr>)
                               (cursors_of None ?cs)),
              Inr (concat (map nodes_of ?cs)))"
    by blast
  have e: "call_events (costing low_capacity 3 five_items) MEDIA_QUERY \<lparr> v_id = None, v_cursor = cur \<rparr> =
      [Fetch MEDIA_QUERY \<lparr> v_id = None, v_cursor = cur \<rparr>,
       Stderr (Throttled (Finite 2000)), Sleep (Finite 2000)]" for cur
    by (simp add: call_events_def shopify_def costing_def low_capacity_def throttled_def
        throttle_wait_def)
  have n: "concat (map nodes_of ?cs) = five_items"
    by (simp add: nodes_of_paged_page offset_of_def five_items_def)
  have u: "cursors_of None ?cs = [None, Some ''ccc'']"
    by (simp add: cursors_of_def paged_page_def offset_of_def five_items_def cursor_of_def Let_def)
  from c3 have c4: "fetchAllPages (costing low_capacity 3 five_items) MEDIA_QUERY None node_metafields [] =
       Some ([Fetch MEDIA_QUERY \<lparr> v_id = None, v_cursor = None \<rparr>,
              Stderr (Throttled (Finite 2000)), Sleep (Finite 2000),
              Fetch MEDIA_QUERY \<lparr> v_id = None, v_cursor = Some ''ccc'' \<rparr>,
              Stderr (Throttled (Finite 2000)), Sleep (Finite 2000)],
             Inr five_items)"
    by (simp only: n u) (simp add: e)
  from a b z s c0 c1 c2 c4 show ?thesis by simp
qed

section \<open>What the fetches of the export leave on the streams\<close>
















section \<open>Emitted records are complete\<close>













section \<open>The export of a small shop\<close>








section \<open>Errors of the generation run\<close>












section \<open>Errors of the export are passed on\<close>





























section \<open>Four failing runs\<close>











section \<open>The records of the small shop\<close>



end
